theory Spec2Isabelle
  imports Main "HOL-Library.Word"
begin

section \<open>The decryption-service client (golang-service/client/dummyclient.go)\<close>

text \<open>
  The client is one Go function, \<^verbatim>\<open>main\<close>. It dials the decryption device, asks for the
  signed root tree hash and for the quote with the two public keys, imports the keys,
  encrypts two sample plaintexts, verifies the signed root tree hash, reads the
  ciphertext table into a map keyed by SHA-256, and then streams the proof table, sending
  one \<^verbatim>\<open>DecryptRecord\<close> call per line.

  The embedding follows \<^verbatim>\<open>main\<close> phase by phase. The Go standard library (PEM, X.509,
  RSA, SHA-256, base64, hex) and the remote device are not code of the client: the
  library is a record of functions \<open>library\<close>, the device and the two files are a record
  \<open>world\<close>, and every theorem holds for all of them. What the run does to the outside is
  a list of events, oldest first. A run ends by returning, by \<^verbatim>\<open>log.Fatal\<close> (exit 1)
  or by a panic.
\<close>

subsection \<open>Data\<close>

type_synonym byte = "8 word"
type_synonym bytes = "byte list"

definition bytesOf :: "string \<Rightarrow> bytes" where
  \<comment> \<open>Go's \<^verbatim>\<open>[]byte("...")\<close>\<close>
  "bytesOf s = map of_char s"

text \<open>\<^verbatim>\<open>type leaf struct { Hash []byte }\<close> (declared, never used by \<^verbatim>\<open>main\<close>).\<close>

record leaf =
  Hash :: bytes

text \<open>
  \<^verbatim>\<open>*rsa.PublicKey\<close>: modulus and public exponent. A nil pointer is \<open>None\<close> of
  \<open>rsa_public_key option\<close>. \<open>public_key\<close> is the \<^verbatim>\<open>interface{}\<close> that
  \<^verbatim>\<open>x509.ParsePKIXPublicKey\<close> returns: an RSA key or a key of another algorithm.
\<close>

record rsa_public_key =
  rsaN :: nat
  rsaE :: nat

datatype public_key = RSAKey rsa_public_key | OtherKey

text \<open>The replies of \<^verbatim>\<open>GetRootTreeHash\<close> and \<^verbatim>\<open>GetPublicKey\<close>, and the request of
  \<^verbatim>\<open>DecryptRecord\<close>. \<open>SigCap\<close> is the capacity of the slice \<open>Sig\<close> as the RPC layer
  allocated it (at least its length): line 48 slices \<^verbatim>\<open>rth.Sig[:31]\<close>, which Go checks
  against the capacity.\<close>

record rth_response =
  Rth :: bytes
  Nonce :: bytes
  Sig :: bytes
  SigCap :: nat

record pk_response =
  Quote :: bytes
  RSA_EncryptionKey :: bytes
  RSA_VerificationKey :: bytes

record request =
  Ciphertext :: bytes
  ProofOfPresence :: string
  ProofOfExtension :: string

subsection \<open>Errors and ways to stop\<close>

text \<open>
  \<open>rpc_error\<close>: the error of a gRPC call. \<open>error\<close>: the error values of the design's
  taxonomy (\<open>MalformedKey\<close> to \<open>Cancelled\<close>; the design's \<open>FixtureCorrupt\<close> is the
  \<^verbatim>\<open>log.Fatal\<close> of line 139, its \<open>SignatureInvalid\<close> the error of line 115), and the other
  causes for which \<^verbatim>\<open>main\<close> calls \<^verbatim>\<open>log.Fatal\<close>: a failed dial, a failed call for the
  hash or the keys, a failed encryption, a file that does not open, a scanner error.
  \<open>panic\<close>: the run-time panics \<^verbatim>\<open>main\<close> can raise. An \<open>abort\<close> ends the process.
\<close>

datatype rpc_error = OracleRejected | TransportError

datatype error =
    MalformedKey
  | UnsupportedKeyType
  | StaleOrForgedNonce
  | SignatureInvalid
  | FixtureCorrupt
  | ProofRecordMalformed
  | Cancelled
  | RpcFailed rpc_error
  | ConnectError
  | EncryptError
  | OpenError
  | ScanError

datatype panic =
    NilDereference
  | ParseDERFailed
  | IndexOutOfRange
  | SliceBoundsOutOfRange

datatype abort = Fatal error | Panic panic

datatype event =
    RpcGetRootTreeHash bytes
  | RpcGetPublicKey bytes
  | RpcDecryptRecord request
  | LogRTH
  | LogQuote
  | LogEncryptionTest
  | LogSpecTest "rpc_error + bytes"
  | LogVerifyFailed error
  | LogVerified bytes
  | LogDecryptFailed rpc_error
  | PrintDecrypted bytes byte

subsection \<open>The standard library and the outside world\<close>

text \<open>
  Each field is one library call of \<^verbatim>\<open>main\<close>:
  \<^item> \<open>pemDecode\<close>: \<^verbatim>\<open>pem.Decode\<close>, the bytes of the first block, \<open>None\<close> for a nil block;
  \<^item> \<open>parsePKIXPublicKey\<close>: \<^verbatim>\<open>x509.ParsePKIXPublicKey\<close>, \<open>None\<close> for an error;
  \<^item> \<open>encryptOAEP\<close>, \<open>encryptPKCS1v15\<close>: the two encryptions with the randomness they
    drew, \<open>None\<close> for an error;
  \<^item> \<open>sha256Sum\<close>: \<^verbatim>\<open>sha256.Sum256\<close>;
  \<^item> \<open>verifyPKCS1v15\<close>: \<^verbatim>\<open>rsa.VerifyPKCS1v15\<close> with \<^verbatim>\<open>crypto.SHA256\<close>, true for a nil error;
  \<^item> \<open>base64DecodeString\<close>, \<open>hexDecodeString\<close>: the decoded bytes and the error, as Go
    returns both.
\<close>

record library =
  pemDecode :: "bytes \<Rightarrow> bytes option"
  parsePKIXPublicKey :: "bytes \<Rightarrow> public_key option"
  encryptOAEP :: "rsa_public_key \<Rightarrow> bytes \<Rightarrow> bytes \<Rightarrow> bytes option"
  encryptPKCS1v15 :: "rsa_public_key \<Rightarrow> bytes \<Rightarrow> bytes option"
  sha256Sum :: "bytes \<Rightarrow> bytes"
  verifyPKCS1v15 :: "rsa_public_key \<Rightarrow> bytes \<Rightarrow> bytes \<Rightarrow> bool"
  base64DecodeString :: "string \<Rightarrow> bytes \<times> string option"
  hexDecodeString :: "string \<Rightarrow> bytes \<times> string option"

text \<open>
  A file is the lines its \<^verbatim>\<open>bufio.Scanner\<close> yields and whether the scanner then reports
  an error. The device answers \<^verbatim>\<open>DecryptRecord\<close> as a function of the request and of
  everything that happened before it, so that it may answer the same request differently
  at different times.
\<close>

record scanned_file =
  fileLines :: "string list"
  scanErr :: bool

record world =
  dialFails :: bool
  getRootTreeHash :: "bytes \<Rightarrow> rpc_error + rth_response"
  getPublicKey :: "bytes \<Rightarrow> rpc_error + pk_response"
  decryptRecord :: "event list \<Rightarrow> request \<Rightarrow> rpc_error + bytes"
  recordsFile :: "scanned_file option"
  proofsFile :: "scanned_file option"

subsection \<open>Helpers of the Go language\<close>

text \<open>\<^verbatim>\<open>strings.Split(s, sep)\<close> for a separator of one character, as both calls have.\<close>

fun strings_Split :: "string \<Rightarrow> char \<Rightarrow> string list" where
  "strings_Split [] sep = [[]]"
| "strings_Split (c # cs) sep =
     (if c = sep then [] # strings_Split cs sep
      else (case strings_Split cs sep of
              [] \<Rightarrow> [[c]]
            | f # fs \<Rightarrow> (c # f) # fs))"

text \<open>\<^verbatim>\<open>ctSum := [32]byte{}; copy(ctSum[:], src)\<close>: the first 32 bytes of \<open>src\<close>, the
  rest of the array left zero.\<close>

definition copy32 :: "bytes \<Rightarrow> bytes" where
  "copy32 src = take 32 src @ replicate (32 - length src) 0"

text \<open>\<^verbatim>\<open>ct := ctDB[ctSum]\<close>: a missing key reads as the nil slice.\<close>

definition mapIndex :: "(bytes \<rightharpoonup> bytes) \<Rightarrow> bytes \<Rightarrow> bytes" where
  "mapIndex ctDB k = (case ctDB k of None \<Rightarrow> [] | Some ct \<Rightarrow> ct)"

text \<open>\<^verbatim>\<open>x, _ := pub.(*rsa.PublicKey)\<close>: nil when the key is of another type.\<close>

fun assertRSA :: "public_key \<Rightarrow> rsa_public_key option" where
  "assertRSA (RSAKey k) = Some k"
| "assertRSA OtherKey = None"

subsection \<open>Constants of \<^verbatim>\<open>main\<close>\<close>

definition rsaSpecTest :: bool where
  "rsaSpecTest = False"

definition rthNonce :: bytes where
  "rthNonce = bytesOf ''aaaaaaaaa''"

definition pkNonce :: bytes where
  "pkNonce = bytesOf ''a long and random byte array''"

definition samplePlaintext :: bytes where
  "samplePlaintext = bytesOf ''Decrypt RPC successfull (OAEP padding)''"

definition label :: bytes where
  "label = bytesOf ''record''"

definition samplePKCS1v15PT :: bytes where
  "samplePKCS1v15PT = bytesOf ''Decrypt RPC successfull (PKCS1v15 padding)''"

subsection \<open>Lines 43 to 55: the two calls for the root tree hash and the keys\<close>

definition fetchRTH :: "world \<Rightarrow> event list \<Rightarrow> (abort + rth_response) \<times> event list" where
  "fetchRTH w tr =
     (let tr1 = tr @ [RpcGetRootTreeHash rthNonce] in
      case getRootTreeHash w rthNonce of
        Inl e \<Rightarrow> (Inl (Fatal (RpcFailed e)), tr1)
      | Inr rth \<Rightarrow>
          if SigCap rth < 31 then (Inl (Panic SliceBoundsOutOfRange), tr1)
          else (Inr rth, tr1 @ [LogRTH]))"

definition fetchPK :: "world \<Rightarrow> event list \<Rightarrow> (abort + pk_response) \<times> event list" where
  "fetchPK w tr =
     (let tr1 = tr @ [RpcGetPublicKey pkNonce] in
      case getPublicKey w pkNonce of
        Inl e \<Rightarrow> (Inl (Fatal (RpcFailed e)), tr1)
      | Inr pk \<Rightarrow> (Inr pk, tr1 @ [LogQuote]))"

subsection \<open>Lines 57 to 71: importing the public keys\<close>

text \<open>
  Both blocks are decoded first and neither result is checked. \<^verbatim>\<open>encBlock.Bytes\<close> then
  dereferences the first block, a parse error panics, and the same follows for the
  second block. The two type assertions discard their \<^verbatim>\<open>ok\<close>.
\<close>

definition importKeys ::
  "library \<Rightarrow> pk_response \<Rightarrow> abort + (rsa_public_key option \<times> rsa_public_key option)" where
  "importKeys lib pk =
     (let encBlock = pemDecode lib (RSA_EncryptionKey pk);
          verBlock = pemDecode lib (RSA_VerificationKey pk) in
      case encBlock of
        None \<Rightarrow> Inl (Panic NilDereference)
      | Some encBytes \<Rightarrow>
         (case parsePKIXPublicKey lib encBytes of
            None \<Rightarrow> Inl (Panic ParseDERFailed)
          | Some encPub \<Rightarrow>
             (case verBlock of
                None \<Rightarrow> Inl (Panic NilDereference)
              | Some verBytes \<Rightarrow>
                 (case parsePKIXPublicKey lib verBytes of
                    None \<Rightarrow> Inl (Panic ParseDERFailed)
                  | Some verPub \<Rightarrow> Inr (assertRSA encPub, assertRSA verPub)))))"

subsection \<open>Lines 73 to 110: the encryption tests\<close>

text \<open>Both encryptions read the fields of \<^verbatim>\<open>rsaEncPub\<close>: a nil key panics.\<close>

definition encryptionTest ::
  "library \<Rightarrow> rsa_public_key option \<Rightarrow> event list \<Rightarrow> (abort + bytes \<times> bytes) \<times> event list" where
  "encryptionTest lib rsaEncPub tr =
     (case rsaEncPub of
        None \<Rightarrow> (Inl (Panic NilDereference), tr)
      | Some k \<Rightarrow>
         (case encryptOAEP lib k samplePlaintext label of
            None \<Rightarrow> (Inl (Fatal EncryptError), tr)
          | Some sampleCiphertext \<Rightarrow>
             (case encryptPKCS1v15 lib k samplePKCS1v15PT of
                None \<Rightarrow> (Inl (Fatal EncryptError), tr)
              | Some samplePKCS1v15CT \<Rightarrow>
                  (Inr (sampleCiphertext, samplePKCS1v15CT), tr @ [LogEncryptionTest]))))"

definition specTestCall :: "world \<Rightarrow> bytes \<Rightarrow> string \<Rightarrow> event list \<Rightarrow> event list" where
  "specTestCall w ct pop tr =
     (let req = \<lparr>Ciphertext = ct, ProofOfPresence = pop, ProofOfExtension = ''{json proof...}''\<rparr>
      in tr @ [RpcDecryptRecord req, LogSpecTest (decryptRecord w tr req)])"

definition specTest :: "world \<Rightarrow> bytes \<times> bytes \<Rightarrow> event list \<Rightarrow> event list" where
  "specTest w cts tr =
     (if rsaSpecTest
      then specTestCall w (snd cts) ''{json proof...................}''
             (specTestCall w (fst cts) ''{json proof...............}'' tr)
      else tr)"

subsection \<open>Lines 112 to 119: verifying the signed root tree hash\<close>

text \<open>
  \<open>verifyRTH\<close> is the value of \<^verbatim>\<open>err\<close> after line 115 (\<open>None\<close> for nil); a nil key
  panics inside \<^verbatim>\<open>rsa.VerifyPKCS1v15\<close>. \<open>verifyPhase\<close> adds what lines 116 to 119 log:
  the failure when there is one, and then, in every case, that the hash is verified.
\<close>

definition verifyRTH ::
  "library \<Rightarrow> rsa_public_key option \<Rightarrow> rth_response \<Rightarrow> panic + error option" where
  "verifyRTH lib rsaVerPub rth =
     (let h = sha256Sum lib (Rth rth @ Nonce rth) in
      case rsaVerPub of
        None \<Rightarrow> Inl NilDereference
      | Some k \<Rightarrow>
          Inr (if verifyPKCS1v15 lib k h (Sig rth) then None else Some SignatureInvalid))"

definition verifyPhase ::
  "library \<Rightarrow> rsa_public_key option \<Rightarrow> rth_response \<Rightarrow> event list \<Rightarrow>
   abort option \<times> event list" where
  "verifyPhase lib rsaVerPub rth tr =
     (case verifyRTH lib rsaVerPub rth of
        Inl p \<Rightarrow> (Some (Panic p), tr)
      | Inr None \<Rightarrow> (None, tr @ [LogVerified (Rth rth)])
      | Inr (Some err) \<Rightarrow> (None, tr @ [LogVerifyFailed err, LogVerified (Rth rth)]))"

subsection \<open>Lines 121 to 146: reading the ciphertext table\<close>

text \<open>
  One turn of the loop per line: split at the commas, decode the second field, hash the
  decoded bytes, stop the process when the decoding failed, store the bytes under their
  hash. \<^verbatim>\<open>line[1]\<close> panics when the line has no comma.
\<close>

fun loadRecords ::
  "library \<Rightarrow> string list \<Rightarrow> (bytes \<rightharpoonup> bytes) \<Rightarrow> abort + (bytes \<rightharpoonup> bytes)" where
  "loadRecords lib [] ctDB = Inr ctDB"
| "loadRecords lib (s # rest) ctDB =
     (if length (strings_Split s CHR '','') < 2 then Inl (Panic IndexOutOfRange)
      else (case base64DecodeString lib (strings_Split s CHR '','' ! 1) of
              (ct, err) \<Rightarrow>
                if err \<noteq> None then Inl (Fatal FixtureCorrupt)
                else loadRecords lib rest (ctDB(sha256Sum lib ct \<mapsto> ct))))"

definition readRecords :: "library \<Rightarrow> world \<Rightarrow> abort + (bytes \<rightharpoonup> bytes)" where
  "readRecords lib w =
     (case recordsFile w of
        None \<Rightarrow> Inl (Fatal OpenError)
      | Some f \<Rightarrow>
         (case loadRecords lib (fileLines f) Map.empty of
            Inl a \<Rightarrow> Inl a
          | Inr ctDB \<Rightarrow> if scanErr f then Inl (Fatal ScanError) else Inr ctDB))"

subsection \<open>Lines 148 to 188: streaming the proof table\<close>

text \<open>
  The state of the second loop: the two proof maps (written, never read) and the events
  so far.
\<close>

record proofs =
  presenceDB :: "string \<rightharpoonup> string"
  extensionDB :: "string \<rightharpoonup> string"
  events :: "event list"

text \<open>The key of line 167 to 170 and the request of line 176, for the fields of a line
  that has at least three.\<close>

definition lookupKey :: "library \<Rightarrow> string \<Rightarrow> bytes" where
  "lookupKey lib digestHex = copy32 (fst (hexDecodeString lib digestHex))"

definition requestOf :: "library \<Rightarrow> (bytes \<rightharpoonup> bytes) \<Rightarrow> string list \<Rightarrow> request" where
  "requestOf lib ctDB line =
     \<lparr>Ciphertext = mapIndex ctDB (lookupKey lib (line ! 0)),
      ProofOfPresence = line ! 1,
      ProofOfExtension = line ! 2\<rparr>"

text \<open>
  One turn of the loop. \<^verbatim>\<open>line[1]\<close> and \<^verbatim>\<open>line[2]\<close> panic on a short line, the second
  after the first map was written. The error of \<^verbatim>\<open>hex.DecodeString\<close> is never read.
  A reply without error is printed with \<^verbatim>\<open>r.Plaintext[0]\<close>, which panics on an empty
  plaintext.
\<close>

definition proofLine ::
  "library \<Rightarrow> world \<Rightarrow> (bytes \<rightharpoonup> bytes) \<Rightarrow> string \<Rightarrow> proofs \<Rightarrow> abort option \<times> proofs" where
  "proofLine lib w ctDB s st =
     (let line = strings_Split s CHR '' '' in
      if length line < 2 then (Some (Panic IndexOutOfRange), st)
      else
        let st1 = st\<lparr>presenceDB := (presenceDB st)(line ! 0 \<mapsto> line ! 1)\<rparr> in
        if length line < 3 then (Some (Panic IndexOutOfRange), st1)
        else
          let st2 = st1\<lparr>extensionDB := (extensionDB st1)(line ! 0 \<mapsto> line ! 2)\<rparr>;
              ctSum = lookupKey lib (line ! 0);
              req = requestOf lib ctDB line;
              tr = events st2 @ [RpcDecryptRecord req]
          in case decryptRecord w (events st2) req of
               Inl err \<Rightarrow> (None, st2\<lparr>events := tr @ [LogDecryptFailed err]\<rparr>)
             | Inr plaintext \<Rightarrow>
                 (case plaintext of
                    [] \<Rightarrow> (Some (Panic IndexOutOfRange), st2\<lparr>events := tr\<rparr>)
                  | b # _ \<Rightarrow> (None, st2\<lparr>events := tr @ [PrintDecrypted ctSum b]\<rparr>)))"

fun proofLoop ::
  "library \<Rightarrow> world \<Rightarrow> (bytes \<rightharpoonup> bytes) \<Rightarrow> string list \<Rightarrow> proofs \<Rightarrow> abort option \<times> proofs" where
  "proofLoop lib w ctDB [] st = (None, st)"
| "proofLoop lib w ctDB (s # rest) st =
     (case proofLine lib w ctDB s st of
        (Some a, st') \<Rightarrow> (Some a, st')
      | (None, st') \<Rightarrow> proofLoop lib w ctDB rest st')"

definition readProofs ::
  "library \<Rightarrow> world \<Rightarrow> (bytes \<rightharpoonup> bytes) \<Rightarrow> event list \<Rightarrow> abort option \<times> event list" where
  "readProofs lib w ctDB tr =
     (case proofsFile w of
        None \<Rightarrow> (Some (Fatal OpenError), tr)
      | Some f \<Rightarrow>
         (case proofLoop lib w ctDB (fileLines f)
                 \<lparr>presenceDB = Map.empty, extensionDB = Map.empty, events = tr\<rparr> of
            (Some a, st) \<Rightarrow> (Some a, events st)
          | (None, st) \<Rightarrow>
              (if scanErr f then Some (Fatal ScanError) else None, events st)))"

subsection \<open>\<^verbatim>\<open>main\<close>\<close>

text \<open>The part of \<^verbatim>\<open>main\<close> from line 112 on, given the reply and the keys.\<close>

definition session ::
  "library \<Rightarrow> world \<Rightarrow> rth_response \<Rightarrow> rsa_public_key option \<Rightarrow> event list \<Rightarrow>
   abort option \<times> event list" where
  "session lib w rth rsaVerPub tr =
     (case verifyPhase lib rsaVerPub rth tr of
        (Some a, tr1) \<Rightarrow> (Some a, tr1)
      | (None, tr1) \<Rightarrow>
         (case readRecords lib w of
            Inl a \<Rightarrow> (Some a, tr1)
          | Inr ctDB \<Rightarrow> readProofs lib w ctDB tr1))"

definition main :: "library \<Rightarrow> world \<Rightarrow> abort option \<times> event list" where
  "main lib w =
     (if dialFails w then (Some (Fatal ConnectError), [])
      else case fetchRTH w [] of
        (Inl a, tr1) \<Rightarrow> (Some a, tr1)
      | (Inr rth, tr1) \<Rightarrow>
         (case fetchPK w tr1 of
            (Inl a, tr2) \<Rightarrow> (Some a, tr2)
          | (Inr pk, tr2) \<Rightarrow>
             (case importKeys lib pk of
                Inl a \<Rightarrow> (Some a, tr2)
              | Inr (rsaEncPub, rsaVerPub) \<Rightarrow>
                 (case encryptionTest lib rsaEncPub tr2 of
                    (Inl a, tr3) \<Rightarrow> (Some a, tr3)
                  | (Inr cts, tr3) \<Rightarrow> session lib w rth rsaVerPub (specTest w cts tr3)))))"

subsection \<open>Reading a run\<close>

text \<open>The requests a run sent to \<^verbatim>\<open>DecryptRecord\<close>, and the outcomes it reported for
  them (the log line of a failed call, the printed line of a successful one).\<close>

fun requestsOf :: "event list \<Rightarrow> request list" where
  "requestsOf [] = []"
| "requestsOf (RpcDecryptRecord req # tr) = req # requestsOf tr"
| "requestsOf (e # tr) = requestsOf tr"

fun isOutcome :: "event \<Rightarrow> bool" where
  "isOutcome (LogDecryptFailed err) = True"
| "isOutcome (PrintDecrypted ctSum b) = True"
| "isOutcome e = False"

definition outcomesOf :: "event list \<Rightarrow> event list" where
  "outcomesOf tr = filter isOutcome tr"

text \<open>The errors a run logged as failures of the signature check (line 117).\<close>

fun verifyFailures :: "event list \<Rightarrow> error list" where
  "verifyFailures [] = []"
| "verifyFailures (LogVerifyFailed err # tr) = err # verifyFailures tr"
| "verifyFailures (e # tr) = verifyFailures tr"

text \<open>The design's threshold for keys: a modulus of fewer than 2048 bits is weak.\<close>

definition weakKey :: "rsa_public_key \<Rightarrow> bool" where
  "weakKey k = (rsaN k < 2 ^ 2047)"

text \<open>What line 177 to 182 report for a reply.\<close>

fun outcomeOf :: "bytes \<Rightarrow> rpc_error + bytes \<Rightarrow> event list" where
  "outcomeOf ctSum (Inl err) = [LogDecryptFailed err]"
| "outcomeOf ctSum (Inr []) = []"
| "outcomeOf ctSum (Inr (b # plaintext)) = [PrintDecrypted ctSum b]"

subsection \<open>A small library and a small world, to run the model\<close>

text \<open>
  The theorems below hold for every library and every world. To run \<^verbatim>\<open>main\<close> on
  concrete inputs a concrete library is needed; \<open>testLibrary\<close> is a small one. Its hex
  decoder follows Go's \<^verbatim>\<open>encoding/hex\<close> (the bytes decoded before an error are returned
  with the error) and its base64 decoder reads the standard alphabet in groups of four
  with \<^verbatim>\<open>=\<close> padding. The rest are toys of the right shape: a PEM block is the five
  dashes \<^verbatim>\<open>-----\<close> and then the payload; a key is two bytes, the kind (1 for RSA, 2
  for another algorithm) and the size of the modulus in bytes; the digest of a message
  is its last 32 bytes in reverse order, padded with zeros; a signature is valid when it equals the
  digest; encryption reverses the message.
\<close>

definition fromHexChar :: "char \<Rightarrow> byte option" where
  "fromHexChar c =
     (let n = (of_char c :: nat) in
      if 48 \<le> n \<and> n \<le> 57 then Some (of_nat (n - 48))
      else if 97 \<le> n \<and> n \<le> 102 then Some (of_nat (n - 87))
      else if 65 \<le> n \<and> n \<le> 70 then Some (of_nat (n - 55))
      else None)"

fun hexDecode :: "string \<Rightarrow> bytes \<times> string option" where
  "hexDecode [] = ([], None)"
| "hexDecode [p] =
     (case fromHexChar p of
        None \<Rightarrow> ([], Some ''encoding/hex: invalid byte'')
      | Some a \<Rightarrow> ([], Some ''encoding/hex: odd length hex string''))"
| "hexDecode (p # q # rest) =
     (case fromHexChar p of
        None \<Rightarrow> ([], Some ''encoding/hex: invalid byte'')
      | Some a \<Rightarrow>
         (case fromHexChar q of
            None \<Rightarrow> ([], Some ''encoding/hex: invalid byte'')
          | Some b \<Rightarrow>
             (case hexDecode rest of (bs, err) \<Rightarrow> ((16 * a + b) # bs, err))))"

definition b64Value :: "char \<Rightarrow> nat option" where
  "b64Value c =
     (let n = (of_char c :: nat) in
      if 65 \<le> n \<and> n \<le> 90 then Some (n - 65)
      else if 97 \<le> n \<and> n \<le> 122 then Some (n - 71)
      else if 48 \<le> n \<and> n \<le> 57 then Some (n + 4)
      else if n = 43 then Some 62
      else if n = 47 then Some 63
      else None)"

definition b64Group :: "char list \<Rightarrow> nat option" where
  \<comment> \<open>the number a group of base64 digits stands for, six bits a digit\<close>
  "b64Group cs =
     foldl (\<lambda>acc c. case acc of None \<Rightarrow> None
                      | Some n \<Rightarrow> (case b64Value c of None \<Rightarrow> None | Some v \<Rightarrow> Some (64 * n + v)))
       (Some 0) cs"

fun b64Decode :: "string \<Rightarrow> bytes \<times> string option" where
  "b64Decode [] = ([], None)"
| "b64Decode (a # b # c # d # rest) =
     (if rest = [] \<and> c = CHR ''='' \<and> d = CHR ''='' then
        (case b64Group [a, b] of
           None \<Rightarrow> ([], Some ''illegal base64 data'')
         | Some n \<Rightarrow> ([of_nat (n div 16)], None))
      else if rest = [] \<and> d = CHR ''='' then
        (case b64Group [a, b, c] of
           None \<Rightarrow> ([], Some ''illegal base64 data'')
         | Some n \<Rightarrow> ([of_nat (n div 1024), of_nat (n div 4 mod 256)], None))
      else
        (case b64Group [a, b, c, d] of
           None \<Rightarrow> ([], Some ''illegal base64 data'')
         | Some n \<Rightarrow>
            (case b64Decode rest of
               (bs, err) \<Rightarrow>
                 (of_nat (n div 65536) # of_nat (n div 256 mod 256) # of_nat (n mod 256) # bs,
                  err))))"
| "b64Decode cs = ([], Some ''illegal base64 data'')"

definition pemFraming :: bytes where
  "pemFraming = bytesOf ''-----''"

definition testLibrary :: library where
  "testLibrary =
     \<lparr>pemDecode = (\<lambda>data. if take 5 data = pemFraming then Some (drop 5 data) else None),
      parsePKIXPublicKey =
        (\<lambda>der. case der of
                 [alg, len] \<Rightarrow>
                   if alg = 1 then Some (RSAKey \<lparr>rsaN = 2 ^ (8 * unat len) - 1, rsaE = 65537\<rparr>)
                   else if alg = 2 then Some OtherKey
                   else None
               | _ \<Rightarrow> None),
      encryptOAEP = (\<lambda>pub msg lab. Some (rev msg)),
      encryptPKCS1v15 = (\<lambda>pub msg. Some (rev msg)),
      sha256Sum = (\<lambda>data. copy32 (rev data)),
      verifyPKCS1v15 = (\<lambda>pub hashed sig. sig = hashed),
      base64DecodeString = b64Decode,
      hexDecodeString = hexDecode\<rparr>"

text \<open>
  The test world: the device answers with a root tree hash of 32 sevens, the nonce it
  was sent and a valid signature, and with two RSA keys of 1024 bits. It decrypts by
  returning the ciphertext, and rejects an empty one. The ciphertext table holds the
  base64 of \<^verbatim>\<open>hello\<close>, the proof table one line for it.
\<close>

definition testRth :: rth_response where
  "testRth =
     \<lparr>Rth = replicate 32 7, Nonce = rthNonce,
      Sig = bytesOf ''aaaaaaaaa'' @ replicate 23 7, SigCap = 32\<rparr>"

definition staleRth :: rth_response where
  \<comment> \<open>a reply for another nonce than the one sent, validly signed\<close>
  "staleRth =
     \<lparr>Rth = replicate 32 7, Nonce = bytesOf ''bbbbbbbbb'',
      Sig = bytesOf ''bbbbbbbbb'' @ replicate 23 7, SigCap = 32\<rparr>"

definition testKeys :: pk_response where
  "testKeys =
     \<lparr>Quote = [],
      RSA_EncryptionKey = pemFraming @ [1, 128],
      RSA_VerificationKey = pemFraming @ [1, 128]\<rparr>"

definition testKey :: rsa_public_key where
  "testKey = \<lparr>rsaN = 2 ^ 1024 - 1, rsaE = 65537\<rparr>"

definition unframedKeys :: pk_response where
  "unframedKeys = \<lparr>Quote = [], RSA_EncryptionKey = [1, 128], RSA_VerificationKey = [1, 128]\<rparr>"

definition testDevice :: "event list \<Rightarrow> request \<Rightarrow> rpc_error + bytes" where
  "testDevice tr req = (if Ciphertext req = [] then Inl OracleRejected else Inr (Ciphertext req))"

definition stripDevice :: "event list \<Rightarrow> request \<Rightarrow> rpc_error + bytes" where
  \<comment> \<open>a device that can answer with an empty plaintext: it drops the first byte\<close>
  "stripDevice tr req = (if Ciphertext req = [] then Inl OracleRejected else Inr (tl (Ciphertext req)))"

definition testWorld :: world where
  "testWorld =
     \<lparr>dialFails = False,
      getRootTreeHash = (\<lambda>nonce. Inr testRth),
      getPublicKey = (\<lambda>nonce. Inr testKeys),
      decryptRecord = testDevice,
      recordsFile = Some \<lparr>fileLines = [''A1B2,aGVsbG8=''], scanErr = False\<rparr>,
      proofsFile = Some \<lparr>fileLines = [''6f6c6c6568 popToken poeToken''], scanErr = False\<rparr>\<rparr>"

section \<open>Properties\<close>

subsection \<open>Unfolding the model on concrete inputs\<close>

lemmas run_defs =
  main_def fetchRTH_def fetchPK_def importKeys_def encryptionTest_def specTest_def
  rsaSpecTest_def session_def verifyPhase_def verifyRTH_def readRecords_def readProofs_def
  proofLine_def requestOf_def lookupKey_def copy32_def mapIndex_def bytesOf_def
  rthNonce_def pkNonce_def Let_def

lemmas test_defs =
  testWorld_def testLibrary_def testRth_def testKeys_def testDevice_def pemFraming_def
  b64Group_def b64Value_def fromHexChar_def

lemmas eval_defs = run_defs test_defs testKey_def unframedKeys_def staleRth_def

lemma replicate_32: "replicate 32 x = x # replicate 31 x"
proof -
  have "(32::nat) = Suc 31" by simp
  then show ?thesis by (simp only: replicate_Suc)
qed

text \<open>The run of the test world: the keys are imported, the hash verifies, the one
  ciphertext is found under its digest and decrypted.\<close>

lemma main_test:
  "main testLibrary testWorld =
     (None,
      [RpcGetRootTreeHash rthNonce, LogRTH, RpcGetPublicKey pkNonce, LogQuote,
       LogEncryptionTest, LogVerified (replicate 32 7),
       RpcDecryptRecord \<lparr>Ciphertext = bytesOf ''hello'', ProofOfPresence = ''popToken'',
                          ProofOfExtension = ''poeToken''\<rparr>,
       PrintDecrypted (bytesOf ''olleh'' @ replicate 27 0) 104])"
  by (simp add: run_defs test_defs)

subsection \<open>One line of the proof table\<close>

lemma proofLine_short:
  "length (strings_Split s CHR '' '') < 3 \<Longrightarrow>
   fst (proofLine lib w ctDB s st) = Some (Panic IndexOutOfRange) \<and>
   events (snd (proofLine lib w ctDB s st)) = events st"
  by (simp add: proofLine_def Let_def)

lemma proofLine_events:
  "3 \<le> length (strings_Split s CHR '' '') \<Longrightarrow>
   events (snd (proofLine lib w ctDB s st)) =
     events st @ RpcDecryptRecord (requestOf lib ctDB (strings_Split s CHR '' ''))
       # outcomeOf (lookupKey lib (strings_Split s CHR '' '' ! 0))
           (decryptRecord w (events st) (requestOf lib ctDB (strings_Split s CHR '' '')))"
  by (simp add: proofLine_def Let_def split: sum.splits list.splits)

lemma proofLine_abort:
  "3 \<le> length (strings_Split s CHR '' '') \<Longrightarrow>
   fst (proofLine lib w ctDB s st) =
     (if decryptRecord w (events st) (requestOf lib ctDB (strings_Split s CHR '' '')) = Inr []
      then Some (Panic IndexOutOfRange) else None)"
  by (simp add: proofLine_def Let_def split: sum.splits list.splits)

lemma proofLine_abort_cases:
  "fst (proofLine lib w ctDB s st) = Some a \<Longrightarrow> a = Panic IndexOutOfRange"
  by (auto simp add: proofLine_def Let_def split: sum.splits list.splits if_splits)

lemma proofLoop_abort_cases:
  "fst (proofLoop lib w ctDB lines st) = Some a \<Longrightarrow> a = Panic IndexOutOfRange"
proof (induction lines arbitrary: st)
  case Nil
  then show ?case by simp
next
  case (Cons s rest)
  show ?case
  proof (cases "proofLine lib w ctDB s st")
    case (Pair r st')
    show ?thesis
    proof (cases r)
      case None
      with Pair Cons.prems have "fst (proofLoop lib w ctDB rest st') = Some a" by simp
      then show ?thesis by (rule Cons.IH)
    next
      case (Some b)
      with Pair Cons.prems have "b = a" by simp
      moreover from Pair Some have "fst (proofLine lib w ctDB s st) = Some b" by simp
      ultimately show ?thesis using proofLine_abort_cases by blast
    qed
  qed
qed

subsection \<open>How a run can stop\<close>

lemma loadRecords_abort_cases:
  "loadRecords lib lines ctDB = Inl a \<Longrightarrow> a = Panic IndexOutOfRange \<or> a = Fatal FixtureCorrupt"
  by (induction lines arbitrary: ctDB) (auto split: if_splits prod.splits)

lemma readRecords_abort_cases:
  "readRecords lib w = Inl a \<Longrightarrow>
   a = Panic IndexOutOfRange \<or> a = Fatal FixtureCorrupt \<or> a = Fatal OpenError \<or> a = Fatal ScanError"
  by (auto simp add: readRecords_def split: option.splits sum.splits if_splits
      dest: loadRecords_abort_cases)

lemma readProofs_abort_cases:
  "fst (readProofs lib w ctDB tr) = Some a \<Longrightarrow>
   a = Panic IndexOutOfRange \<or> a = Fatal OpenError \<or> a = Fatal ScanError"
proof (cases "proofsFile w")
  case None
  then show "fst (readProofs lib w ctDB tr) = Some a \<Longrightarrow> ?thesis"
    by (simp add: readProofs_def)
next
  case (Some f)
  assume a: "fst (readProofs lib w ctDB tr) = Some a"
  obtain r st where p: "proofLoop lib w ctDB (fileLines f)
      \<lparr>presenceDB = Map.empty, extensionDB = Map.empty, events = tr\<rparr> = (r, st)"
    by (cases "proofLoop lib w ctDB (fileLines f)
      \<lparr>presenceDB = Map.empty, extensionDB = Map.empty, events = tr\<rparr>")
  show ?thesis
  proof (cases r)
    case None
    with a Some p show ?thesis by (simp add: readProofs_def split: if_splits)
  next
    case (Some b)
    with a \<open>proofsFile w = Some f\<close> p have "b = a" by (simp add: readProofs_def)
    moreover from p Some have "fst (proofLoop lib w ctDB (fileLines f)
      \<lparr>presenceDB = Map.empty, extensionDB = Map.empty, events = tr\<rparr>) = Some b" by simp
    ultimately show ?thesis using proofLoop_abort_cases by blast
  qed
qed

lemma verifyPhase_abort_cases:
  "fst (verifyPhase lib key rth tr) = Some a \<Longrightarrow> a = Panic NilDereference"
  by (auto simp add: verifyPhase_def verifyRTH_def Let_def split: option.splits sum.splits if_splits)

lemma session_abort_cases:
  "fst (session lib w rth key tr) = Some a \<Longrightarrow>
   a = Panic NilDereference \<or> a = Panic IndexOutOfRange \<or> a = Fatal FixtureCorrupt \<or>
   a = Fatal OpenError \<or> a = Fatal ScanError"
proof -
  assume a: "fst (session lib w rth key tr) = Some a"
  obtain r tr1 where v: "verifyPhase lib key rth tr = (r, tr1)"
    by (cases "verifyPhase lib key rth tr")
  show ?thesis
  proof (cases r)
    case (Some b)
    with a v have "b = a" by (simp add: session_def)
    with v Some have "fst (verifyPhase lib key rth tr) = Some a" by simp
    then show ?thesis using verifyPhase_abort_cases by blast
  next
    case None
    show ?thesis
    proof (cases "readRecords lib w")
      case (Inl b)
      with a v None have "b = a" by (simp add: session_def)
      with Inl show ?thesis using readRecords_abort_cases by blast
    next
      case (Inr ctDB)
      with a v None have "fst (readProofs lib w ctDB tr1) = Some a" by (simp add: session_def)
      then show ?thesis using readProofs_abort_cases by blast
    qed
  qed
qed

lemma importKeys_abort_cases:
  "importKeys lib pk = Inl a \<Longrightarrow> a = Panic NilDereference \<or> a = Panic ParseDERFailed"
  by (auto simp add: importKeys_def Let_def split: option.splits)

lemma main_abort_cases:
  "fst (main lib w) = Some a \<Longrightarrow>
   (\<exists>p. a = Panic p) \<or> (\<exists>e. a = Fatal (RpcFailed e)) \<or> a = Fatal ConnectError \<or>
   a = Fatal EncryptError \<or> a = Fatal FixtureCorrupt \<or> a = Fatal OpenError \<or>
   a = Fatal ScanError"
  unfolding main_def
  by (auto simp add: fetchRTH_def fetchPK_def encryptionTest_def Let_def
      split: if_splits sum.splits prod.splits option.splits
      dest!: session_abort_cases importKeys_abort_cases)

subsection \<open>The two loops\<close>

lemma requestsOf_append: "requestsOf (xs @ ys) = requestsOf xs @ requestsOf ys"
  by (induction xs rule: requestsOf.induct) simp_all

lemma requestsOf_outcomeOf: "requestsOf (outcomeOf k r) = []"
  by (cases "(k, r)" rule: outcomeOf.cases) simp_all

lemma outcomesOf_append: "outcomesOf (xs @ ys) = outcomesOf xs @ outcomesOf ys"
  by (simp add: outcomesOf_def)

lemma filter_outcomeOf: "filter isOutcome (outcomeOf k r) = outcomeOf k r"
  by (cases "(k, r)" rule: outcomeOf.cases) simp_all

lemma length_outcomeOf: "r \<noteq> Inr [] \<Longrightarrow> length (outcomeOf k r) = 1"
  by (cases "(k, r)" rule: outcomeOf.cases) simp_all

lemma proofLoop_Cons:
  "fst (proofLine lib w ctDB s st) = None \<Longrightarrow>
   proofLoop lib w ctDB (s # rest) st = proofLoop lib w ctDB rest (snd (proofLine lib w ctDB s st))"
  by (cases "proofLine lib w ctDB s st") simp

lemma proofLoop_complete:
  assumes "\<forall>s\<in>set lines. 3 \<le> length (strings_Split s CHR '' '')"
    and "\<forall>tr req. decryptRecord w tr req \<noteq> Inr []"
  shows "fst (proofLoop lib w ctDB lines st) = None \<and>
         requestsOf (events (snd (proofLoop lib w ctDB lines st))) =
           requestsOf (events st) @
           map (\<lambda>s. requestOf lib ctDB (strings_Split s CHR '' '')) lines \<and>
         length (outcomesOf (events (snd (proofLoop lib w ctDB lines st)))) =
           length (outcomesOf (events st)) + length lines"
  using assms
proof (induction lines arbitrary: st)
  case Nil
  then show ?case by simp
next
  case (Cons s rest)
  let ?st = "snd (proofLine lib w ctDB s st)"
  from Cons.prems have len: "3 \<le> length (strings_Split s CHR '' '')" by simp
  from Cons.prems have ne: "decryptRecord w (events st)
      (requestOf lib ctDB (strings_Split s CHR '' '')) \<noteq> Inr []" by blast
  from len ne have none: "fst (proofLine lib w ctDB s st) = None"
    by (simp add: proofLine_abort)
  have step: "proofLoop lib w ctDB (s # rest) st = proofLoop lib w ctDB rest ?st"
    using none by (rule proofLoop_Cons)
  from Cons.prems have rest: "\<forall>s\<in>set rest. 3 \<le> length (strings_Split s CHR '' '')" by simp
  note ih = Cons.IH [OF rest Cons.prems(2), of ?st]
  have ev: "events ?st =
     events st @ RpcDecryptRecord (requestOf lib ctDB (strings_Split s CHR '' ''))
       # outcomeOf (lookupKey lib (strings_Split s CHR '' '' ! 0))
           (decryptRecord w (events st) (requestOf lib ctDB (strings_Split s CHR '' '')))"
    using len by (rule proofLine_events)
  have rq: "requestsOf (events ?st) =
     requestsOf (events st) @ [requestOf lib ctDB (strings_Split s CHR '' '')]"
    by (simp add: ev requestsOf_append requestsOf_outcomeOf)
  have oc: "length (outcomesOf (events ?st)) = length (outcomesOf (events st)) + 1"
    using ne by (simp add: ev outcomesOf_def filter_outcomeOf length_outcomeOf)
  show ?case unfolding step using ih by (simp add: rq oc)
qed

lemma proofLoop_single: "proofLoop lib w ctDB [s] st = proofLine lib w ctDB s st"
  by (cases "proofLine lib w ctDB s st") (simp split: option.splits)

lemma proofLoop_append:
  "proofLoop lib w ctDB (xs @ ys) st =
     (case proofLoop lib w ctDB xs st of
        (Some a, st') \<Rightarrow> (Some a, st')
      | (None, st') \<Rightarrow> proofLoop lib w ctDB ys st')"
  by (induction xs arbitrary: st) (simp_all split: prod.splits option.splits)

lemma proofLoop_snoc:
  "fst (proofLoop lib w ctDB xs st) = None \<Longrightarrow>
   proofLoop lib w ctDB (xs @ [s]) st = proofLine lib w ctDB s (snd (proofLoop lib w ctDB xs st))"
proof -
  assume "fst (proofLoop lib w ctDB xs st) = None"
  then obtain st' where p: "proofLoop lib w ctDB xs st = (None, st')"
    by (cases "proofLoop lib w ctDB xs st") simp
  then have "proofLoop lib w ctDB (xs @ [s]) st = proofLoop lib w ctDB [s] st'"
    using proofLoop_append [of lib w ctDB xs "[s]" st] by (simp del: proofLoop.simps)
  then show ?thesis by (simp only: proofLoop_single p snd_conv)
qed

lemma proofLine_extends:
  "\<exists>ev. events (snd (proofLine lib w ctDB s st)) = events st @ ev"
proof (cases "3 \<le> length (strings_Split s CHR '' '')")
  case True
  then show ?thesis by (simp add: proofLine_events)
next
  case False
  then show ?thesis by (simp add: proofLine_short)
qed

lemma proofLoop_extends:
  "\<exists>ev. events (snd (proofLoop lib w ctDB lines st)) = events st @ ev"
proof (induction lines arbitrary: st)
  case Nil
  then show ?case by simp
next
  case (Cons s rest)
  obtain ev1 where 1: "events (snd (proofLine lib w ctDB s st)) = events st @ ev1"
    using proofLine_extends by blast
  show ?case
  proof (cases "fst (proofLine lib w ctDB s st)")
    case None
    then have "proofLoop lib w ctDB (s # rest) st =
        proofLoop lib w ctDB rest (snd (proofLine lib w ctDB s st))"
      by (rule proofLoop_Cons)
    moreover obtain ev2 where
      "events (snd (proofLoop lib w ctDB rest (snd (proofLine lib w ctDB s st)))) =
         events (snd (proofLine lib w ctDB s st)) @ ev2"
      using Cons.IH by blast
    ultimately show ?thesis using 1 by simp
  next
    case (Some a)
    then have "proofLoop lib w ctDB (s # rest) st = proofLine lib w ctDB s st"
      by (cases "proofLine lib w ctDB s st") simp
    then show ?thesis using 1 by simp
  qed
qed

lemma proofLoop_first_request:
  assumes "3 \<le> length (strings_Split s CHR '' '')"
  shows "\<exists>ev. events (snd (proofLoop lib w ctDB (s # rest) st)) =
           events st @ RpcDecryptRecord (requestOf lib ctDB (strings_Split s CHR '' '')) # ev"
proof -
  let ?st = "snd (proofLine lib w ctDB s st)"
  have 1: "events ?st =
     events st @ RpcDecryptRecord (requestOf lib ctDB (strings_Split s CHR '' ''))
       # outcomeOf (lookupKey lib (strings_Split s CHR '' '' ! 0))
           (decryptRecord w (events st) (requestOf lib ctDB (strings_Split s CHR '' '')))"
    using assms by (rule proofLine_events)
  show ?thesis
  proof (cases "fst (proofLine lib w ctDB s st)")
    case None
    then have "proofLoop lib w ctDB (s # rest) st = proofLoop lib w ctDB rest ?st"
      by (rule proofLoop_Cons)
    moreover obtain ev2 where
      "events (snd (proofLoop lib w ctDB rest ?st)) = events ?st @ ev2"
      using proofLoop_extends by blast
    ultimately show ?thesis using 1 by simp
  next
    case (Some a)
    then have "proofLoop lib w ctDB (s # rest) st = proofLine lib w ctDB s st"
      by (cases "proofLine lib w ctDB s st") simp
    then show ?thesis using 1 by simp
  qed
qed

lemma proofLoop_batch:
  assumes "\<forall>s\<in>set lines. 3 \<le> length (strings_Split s CHR '' '')"
    and "\<forall>i<length lines.
           decryptRecord w (events (snd (proofLoop lib w ctDB (take i lines) st)))
             (requestOf lib ctDB (strings_Split (lines ! i) CHR '' '')) \<noteq> Inr []"
  shows "fst (proofLoop lib w ctDB lines st) = None \<and>
         requestsOf (events (snd (proofLoop lib w ctDB lines st))) =
           requestsOf (events st) @
           map (\<lambda>s. requestOf lib ctDB (strings_Split s CHR '' '')) lines \<and>
         length (outcomesOf (events (snd (proofLoop lib w ctDB lines st)))) =
           length (outcomesOf (events st)) + length lines"
  using assms
proof (induction lines rule: rev_induct)
  case Nil
  then show ?case by simp
next
  case (snoc x xs)
  let ?st = "snd (proofLoop lib w ctDB xs st)"
  let ?req = "requestOf lib ctDB (strings_Split x CHR '' '')"
  from snoc.prems(1) have a: "\<forall>s\<in>set xs. 3 \<le> length (strings_Split s CHR '' '')"
    and len: "3 \<le> length (strings_Split x CHR '' '')" by simp_all
  have b: "\<forall>i<length xs.
           decryptRecord w (events (snd (proofLoop lib w ctDB (take i xs) st)))
             (requestOf lib ctDB (strings_Split (xs ! i) CHR '' '')) \<noteq> Inr []"
  proof (intro allI impI)
    fix i assume i: "i < length xs"
    with snoc.prems(2) have "decryptRecord w
        (events (snd (proofLoop lib w ctDB (take i (xs @ [x])) st)))
        (requestOf lib ctDB (strings_Split ((xs @ [x]) ! i) CHR '' '')) \<noteq> Inr []"
      by simp
    with i show "decryptRecord w (events (snd (proofLoop lib w ctDB (take i xs) st)))
             (requestOf lib ctDB (strings_Split (xs ! i) CHR '' '')) \<noteq> Inr []"
      by (simp add: nth_append)
  qed
  note ih = snoc.IH [OF a b]
  have "length xs < length (xs @ [x])" by simp
  with snoc.prems(2) have "decryptRecord w
        (events (snd (proofLoop lib w ctDB (take (length xs) (xs @ [x])) st)))
        (requestOf lib ctDB (strings_Split ((xs @ [x]) ! length xs) CHR '' '')) \<noteq> Inr []"
    by blast
  then have ne: "decryptRecord w (events ?st) ?req \<noteq> Inr []" by simp
  from ih have step: "proofLoop lib w ctDB (xs @ [x]) st = proofLine lib w ctDB x ?st"
    by (simp add: proofLoop_snoc)
  have none: "fst (proofLine lib w ctDB x ?st) = None"
    using len ne by (simp add: proofLine_abort)
  have ev: "events (snd (proofLine lib w ctDB x ?st)) =
     events ?st @ RpcDecryptRecord ?req
       # outcomeOf (lookupKey lib (strings_Split x CHR '' '' ! 0))
           (decryptRecord w (events ?st) ?req)"
    using len by (rule proofLine_events)
  have rq: "requestsOf (events (snd (proofLine lib w ctDB x ?st))) =
     requestsOf (events ?st) @ [?req]"
    by (simp add: ev requestsOf_append requestsOf_outcomeOf)
  have oc: "length (outcomesOf (events (snd (proofLine lib w ctDB x ?st)))) =
     length (outcomesOf (events ?st)) + 1"
    using ne by (simp add: ev outcomesOf_def filter_outcomeOf length_outcomeOf)
  show ?case unfolding step using ih none by (simp add: rq oc)
qed

lemma proofLoop_batch_step:
  assumes "\<forall>s\<in>set lines. 3 \<le> length (strings_Split s CHR '' '')"
    and "\<forall>i<length lines.
           decryptRecord w (events (snd (proofLoop lib w ctDB (take i lines) st)))
             (requestOf lib ctDB (strings_Split (lines ! i) CHR '' '')) \<noteq> Inr []"
    and "j < length lines"
  shows "events (snd (proofLoop lib w ctDB (take (Suc j) lines) st)) =
           events (snd (proofLoop lib w ctDB (take j lines) st)) @
           RpcDecryptRecord (requestOf lib ctDB (strings_Split (lines ! j) CHR '' ''))
           # outcomeOf (lookupKey lib (strings_Split (lines ! j) CHR '' '' ! 0))
               (decryptRecord w (events (snd (proofLoop lib w ctDB (take j lines) st)))
                  (requestOf lib ctDB (strings_Split (lines ! j) CHR '' '')))"
proof -
  have a: "\<forall>s\<in>set (take j lines). 3 \<le> length (strings_Split s CHR '' '')"
    using assms(1) by (meson in_set_takeD)
  have b: "\<forall>i<length (take j lines).
           decryptRecord w (events (snd (proofLoop lib w ctDB (take i (take j lines)) st)))
             (requestOf lib ctDB (strings_Split (take j lines ! i) CHR '' '')) \<noteq> Inr []"
  proof (intro allI impI)
    fix i assume "i < length (take j lines)"
    then have i: "i < j" "i < length lines" by simp_all
    then have "min i j = i" by simp
    with assms(2) i show "decryptRecord w
        (events (snd (proofLoop lib w ctDB (take i (take j lines)) st)))
        (requestOf lib ctDB (strings_Split (take j lines ! i) CHR '' '')) \<noteq> Inr []"
      by simp
  qed
  from proofLoop_batch [OF a b] have none: "fst (proofLoop lib w ctDB (take j lines) st) = None"
    by blast
  have "take (Suc j) lines = take j lines @ [lines ! j]"
    using assms(3) by (rule take_Suc_conv_app_nth)
  then have "proofLoop lib w ctDB (take (Suc j) lines) st =
      proofLine lib w ctDB (lines ! j) (snd (proofLoop lib w ctDB (take j lines) st))"
    using none by (simp add: proofLoop_snoc)
  moreover have "3 \<le> length (strings_Split (lines ! j) CHR '' '')"
    using assms(1,3) by simp
  ultimately show ?thesis by (simp add: proofLine_events)
qed

lemma loadRecords_fails:
  "\<exists>s\<in>set lines. 2 \<le> length (strings_Split s CHR '','') \<and>
       snd (base64DecodeString lib (strings_Split s CHR '','' ! 1)) \<noteq> None \<Longrightarrow>
   \<exists>a. loadRecords lib lines ctDB = Inl a"
  by (induction lines arbitrary: ctDB) (auto split: prod.splits)

lemma loadRecords_corrupt:
  "\<forall>s\<in>set lines. 2 \<le> length (strings_Split s CHR '','') \<Longrightarrow>
   \<exists>s\<in>set lines. snd (base64DecodeString lib (strings_Split s CHR '','' ! 1)) \<noteq> None \<Longrightarrow>
   loadRecords lib lines ctDB = Inl (Fatal FixtureCorrupt)"
  by (induction lines arbitrary: ctDB) (auto split: prod.splits)

lemma loadRecords_foldl:
  "loadRecords lib lines ctDB0 = Inr ctDB \<Longrightarrow>
   ctDB = foldl (\<lambda>m ct. m(sha256Sum lib ct \<mapsto> ct)) ctDB0
            (map (\<lambda>s. fst (base64DecodeString lib (strings_Split s CHR '','' ! 1))) lines)"
  by (induction lines arbitrary: ctDB0) (auto split: prod.splits if_splits)

lemma foldl_keys:
  "foldl (\<lambda>m ct. m(h ct \<mapsto> ct)) m0 cts k = Some ct \<Longrightarrow> m0 k = Some ct \<or> k = h ct"
proof (induction cts arbitrary: m0)
  case Nil
  then show ?case by simp
next
  case (Cons c cts)
  from Cons.prems have "foldl (\<lambda>m ct. m(h ct \<mapsto> ct)) (m0(h c \<mapsto> c)) cts k = Some ct"
    by (simp only: foldl_Cons)
  then have "(m0(h c \<mapsto> c)) k = Some ct \<or> k = h ct" by (rule Cons.IH)
  then show ?case by (auto split: if_splits)
qed

lemma loadRecords_keys:
  "loadRecords lib lines ctDB0 = Inr ctDB \<Longrightarrow> ctDB k = Some ct \<Longrightarrow>
   ctDB0 k = Some ct \<or> k = sha256Sum lib ct"
  using foldl_keys [of "sha256Sum lib" ctDB0 _ k ct] loadRecords_foldl [of lib lines ctDB0 ctDB]
  by blast

lemma readRecords_keys:
  "readRecords lib w = Inr ctDB \<Longrightarrow> ctDB k = Some ct \<Longrightarrow> k = sha256Sum lib ct"
  by (auto simp add: readRecords_def split: option.splits sum.splits if_splits
      dest: loadRecords_keys)

lemma length_copy32: "length (copy32 src) = 32"
  by (simp add: copy32_def)

lemma copy32_short: "length src < 32 \<Longrightarrow> copy32 src = src @ replicate (32 - length src) 0"
  by (simp add: copy32_def)

subsection \<open>What the signature check logs\<close>

lemma verifyFailures_append: "verifyFailures (xs @ ys) = verifyFailures xs @ verifyFailures ys"
  by (induction xs rule: verifyFailures.induct) simp_all

lemma verifyFailures_outcomeOf: "verifyFailures (outcomeOf k r) = []"
  by (cases "(k, r)" rule: outcomeOf.cases) simp_all

lemma proofLine_verifyFailures:
  "verifyFailures (events (snd (proofLine lib w ctDB s st))) = verifyFailures (events st)"
proof (cases "3 \<le> length (strings_Split s CHR '' '')")
  case True
  then show ?thesis
    by (simp add: proofLine_events verifyFailures_append verifyFailures_outcomeOf)
next
  case False
  then show ?thesis by (simp add: proofLine_short)
qed

lemma proofLoop_verifyFailures:
  "verifyFailures (events (snd (proofLoop lib w ctDB lines st))) = verifyFailures (events st)"
proof (induction lines arbitrary: st)
  case Nil
  then show ?case by simp
next
  case (Cons s rest)
  show ?case
  proof (cases "proofLine lib w ctDB s st")
    case (Pair r st')
    from Pair have st': "st' = snd (proofLine lib w ctDB s st)" by simp
    show ?thesis
    proof (cases r)
      case None
      with Pair have "proofLoop lib w ctDB (s # rest) st = proofLoop lib w ctDB rest st'"
        by simp
      then show ?thesis by (simp only: Cons.IH st' proofLine_verifyFailures)
    next
      case (Some a)
      with Pair have "proofLoop lib w ctDB (s # rest) st = (Some a, st')" by simp
      then show ?thesis by (simp add: st' proofLine_verifyFailures)
    qed
  qed
qed

lemma readProofs_verifyFailures:
  "verifyFailures (snd (readProofs lib w ctDB tr)) = verifyFailures tr"
proof (cases "proofsFile w")
  case None
  then show ?thesis by (simp add: readProofs_def)
next
  case (Some f)
  let ?st0 = "\<lparr>presenceDB = Map.empty, extensionDB = Map.empty, events = tr\<rparr>"
  have "snd (readProofs lib w ctDB tr) = events (snd (proofLoop lib w ctDB (fileLines f) ?st0))"
    using Some by (simp add: readProofs_def split: prod.splits option.splits)
  then show ?thesis by (simp add: proofLoop_verifyFailures)
qed

lemma session_verifyFailures:
  "verifyFailures (snd (session lib w rth key tr)) =
     verifyFailures tr @
     (case verifyRTH lib key rth of Inr (Some err) \<Rightarrow> [err] | _ \<Rightarrow> [])"
  by (simp add: session_def verifyPhase_def readProofs_verifyFailures verifyFailures_append
      split: sum.splits option.splits)

lemma verifyRTH_cases:
  "verifyRTH lib key rth = Inr (Some err) \<Longrightarrow> err = SignatureInvalid"
  by (auto simp add: verifyRTH_def Let_def split: option.splits if_splits)

lemma main_verifyFailures:
  "set (verifyFailures (snd (main lib w))) \<subseteq> {SignatureInvalid}"
  unfolding main_def
  by (auto simp add: fetchRTH_def fetchPK_def encryptionTest_def specTest_def rsaSpecTest_def
      Let_def session_verifyFailures
      split: if_splits sum.splits prod.splits option.splits
      dest: verifyRTH_cases verifyRTH_cases [OF sym])

lemma main_ready:
  assumes "\<not> dialFails w" and "getRootTreeHash w rthNonce = Inr rth" and "31 \<le> SigCap rth"
    and "getPublicKey w pkNonce = Inr pk"
    and "importKeys lib pk = Inr (Some encKey, verKey)"
    and "encryptOAEP lib encKey samplePlaintext label = Some c1"
    and "encryptPKCS1v15 lib encKey samplePKCS1v15PT = Some c2"
  shows "main lib w =
     session lib w rth verKey
       [RpcGetRootTreeHash rthNonce, LogRTH, RpcGetPublicKey pkNonce, LogQuote,
        LogEncryptionTest]"
  using assms
  by (simp add: main_def fetchRTH_def fetchPK_def encryptionTest_def specTest_def
      rsaSpecTest_def Let_def)

lemma main_import_fails:
  assumes "\<not> dialFails w" and "getRootTreeHash w rthNonce = Inr rth" and "31 \<le> SigCap rth"
    and "getPublicKey w pkNonce = Inr pk"
    and "importKeys lib pk = Inl a"
  shows "main lib w =
     (Some a, [RpcGetRootTreeHash rthNonce, LogRTH, RpcGetPublicKey pkNonce, LogQuote])"
  using assms by (simp add: main_def fetchRTH_def fetchPK_def Let_def)

lemma session_load_fails:
  "readRecords lib w = Inl a \<Longrightarrow>
   requestsOf (snd (session lib w rth key tr)) = requestsOf tr \<and>
   fst (session lib w rth key tr) \<noteq> None"
  by (simp add: session_def verifyPhase_def requestsOf_append split: sum.splits option.splits)

section \<open>The claims\<close>

subsection \<open>Key import\<close>

text \<open>
  Claim C10. For any key input whose PEM framing is absent, key import never produces a
  typed \<open>MalformedKey\<close> result: the outcome of \<^verbatim>\<open>pem.Decode\<close> is not checked, the nil
  block is dereferenced and the program stops abnormally instead of returning an error;
  \<open>MalformedKey\<close> is reported for no input at all.

  In the model: neither key import nor the whole of \<^verbatim>\<open>main\<close> ever ends with
  \<open>MalformedKey\<close>. When the encryption key has no PEM block, key import panics with the
  nil dereference of \<^verbatim>\<open>encBlock.Bytes\<close>. When the verification key has none, key import
  panics as well: with the nil dereference of \<^verbatim>\<open>verBlock.Bytes\<close>, unless the statements
  before it (line 61 to 64, on the encryption key) have panicked already. And a panic of
  key import is how \<^verbatim>\<open>main\<close> ends, right after the two replies were logged.
\<close>

theorem importKeys_absent_framing:
  "importKeys lib pk \<noteq> Inl (Fatal MalformedKey) \<and>
   fst (main lib w) \<noteq> Some (Fatal MalformedKey) \<and>
   (pemDecode lib (RSA_EncryptionKey pk) = None \<longrightarrow>
      importKeys lib pk = Inl (Panic NilDereference)) \<and>
   (pemDecode lib (RSA_VerificationKey pk) = None \<longrightarrow>
      importKeys lib pk =
        Inl (Panic (case pemDecode lib (RSA_EncryptionKey pk) of
                      None \<Rightarrow> NilDereference
                    | Some encBytes \<Rightarrow>
                       (case parsePKIXPublicKey lib encBytes of
                          None \<Rightarrow> ParseDERFailed
                        | Some encPub \<Rightarrow> NilDereference)))) \<and>
   (\<not> dialFails w \<and> getRootTreeHash w rthNonce = Inr rth \<and> 31 \<le> SigCap rth \<and>
    getPublicKey w pkNonce = Inr pk \<and> importKeys lib pk = Inl a \<longrightarrow>
      main lib w =
        (Some a, [RpcGetRootTreeHash rthNonce, LogRTH, RpcGetPublicKey pkNonce, LogQuote]))"
proof -
  have 1: "importKeys lib pk \<noteq> Inl (Fatal MalformedKey)"
    using importKeys_abort_cases [of lib pk "Fatal MalformedKey"] by auto
  have 2: "fst (main lib w) \<noteq> Some (Fatal MalformedKey)"
    using main_abort_cases [of lib w "Fatal MalformedKey"] by auto
  have 3: "pemDecode lib (RSA_EncryptionKey pk) = None \<longrightarrow>
      importKeys lib pk = Inl (Panic NilDereference)"
    by (simp add: importKeys_def)
  have 4: "pemDecode lib (RSA_VerificationKey pk) = None \<longrightarrow>
      importKeys lib pk =
        Inl (Panic (case pemDecode lib (RSA_EncryptionKey pk) of
                      None \<Rightarrow> NilDereference
                    | Some encBytes \<Rightarrow>
                       (case parsePKIXPublicKey lib encBytes of
                          None \<Rightarrow> ParseDERFailed
                        | Some encPub \<Rightarrow> NilDereference)))"
    by (simp add: importKeys_def split: option.splits)
  have 5: "\<not> dialFails w \<and> getRootTreeHash w rthNonce = Inr rth \<and> 31 \<le> SigCap rth \<and>
    getPublicKey w pkNonce = Inr pk \<and> importKeys lib pk = Inl a \<longrightarrow>
      main lib w =
        (Some a, [RpcGetRootTreeHash rthNonce, LogRTH, RpcGetPublicKey pkNonce, LogQuote])"
    using main_import_fails [of w rth pk lib a] by blast
  from 1 2 3 4 5 show ?thesis by blast
qed

theorem importKeys_absent_framing_witness:
  "pemDecode testLibrary (RSA_EncryptionKey unframedKeys) = None \<and>
   pemDecode testLibrary (RSA_VerificationKey unframedKeys) = None \<and>
   importKeys testLibrary unframedKeys = Inl (Panic NilDereference) \<and>
   main testLibrary (testWorld\<lparr>getPublicKey := \<lambda>nonce. Inr unframedKeys\<rparr>) =
     (Some (Panic NilDereference),
      [RpcGetRootTreeHash rthNonce, LogRTH, RpcGetPublicKey pkNonce, LogQuote])"
  using importKeys_absent_framing [of testLibrary unframedKeys
      "testWorld\<lparr>getPublicKey := \<lambda>nonce. Inr unframedKeys\<rparr>" testRth "Panic NilDereference"]
  by (simp add: testLibrary_def unframedKeys_def pemFraming_def bytesOf_def testWorld_def
      testRth_def)

text \<open>
  Claim C5, as stated: key import rejects any PEM input that does not decode to an RSA
  public key of at least 2048 bits, and a DER payload that is not an RSA key fails with
  \<open>UnsupportedKeyType\<close>. The code has no size check and discards the \<^verbatim>\<open>ok\<close> of both type
  assertions: the two 1024-bit keys of the test world are imported and the run goes on to
  its end, and a verification key of another algorithm is imported as a nil key, without
  an error.
\<close>

theorem importKeys_weak_key_counterexample:
  "importKeys testLibrary testKeys = Inr (Some testKey, Some testKey) \<and> weakKey testKey \<and>
   importKeys testLibrary (testKeys\<lparr>RSA_VerificationKey := pemFraming @ [2, 0]\<rparr>) =
     Inr (Some testKey, None) \<and>
   fst (main testLibrary testWorld) = None"
  by (simp add: eval_defs weakKey_def)

text \<open>
  Claim C5, amended. Key import applies no threshold to the size of a key: whenever both
  PEM inputs are framed and both DER payloads parse to RSA public keys, the import
  succeeds and returns exactly those two keys, whatever the size of their moduli.
\<close>

theorem importKeys_any_size:
  assumes "pemDecode lib (RSA_EncryptionKey pk) = Some encBytes"
    and "parsePKIXPublicKey lib encBytes = Some (RSAKey encKey)"
    and "pemDecode lib (RSA_VerificationKey pk) = Some verBytes"
    and "parsePKIXPublicKey lib verBytes = Some (RSAKey verKey)"
  shows "importKeys lib pk = Inr (Some encKey, Some verKey)"
  using assms by (simp add: importKeys_def)

theorem importKeys_any_size_witness:
  "pemDecode testLibrary (RSA_EncryptionKey testKeys) = Some [1, 128] \<and>
   pemDecode testLibrary (RSA_VerificationKey testKeys) = Some [1, 128] \<and>
   parsePKIXPublicKey testLibrary [1, 128] = Some (RSAKey testKey) \<and>
   weakKey testKey \<and>
   importKeys testLibrary testKeys = Inr (Some testKey, Some testKey)"
proof -
  have h1: "pemDecode testLibrary (RSA_EncryptionKey testKeys) = Some [1, 128]"
    by (simp add: testLibrary_def testKeys_def pemFraming_def bytesOf_def)
  have h2: "parsePKIXPublicKey testLibrary [1, 128] = Some (RSAKey testKey)"
    by (simp add: testLibrary_def testKey_def)
  have h3: "pemDecode testLibrary (RSA_VerificationKey testKeys) = Some [1, 128]"
    by (simp add: testLibrary_def testKeys_def pemFraming_def bytesOf_def)
  have weak: "weakKey testKey"
    by (simp add: weakKey_def testKey_def)
  from importKeys_any_size [OF h1 h2 h3 h2] h1 h2 h3 weak show ?thesis by simp
qed

subsection \<open>The root commitment\<close>

text \<open>
  Claim C2, as stated: a commitment whose nonce differs from the nonce the client sent
  fails verification with \<open>StaleOrForgedNonce\<close>, whether or not its signature is valid.
  The code never compares the two nonces. \<open>staleRth\<close> carries the nonce \<^verbatim>\<open>bbbbbbbbb\<close>
  where \<^verbatim>\<open>aaaaaaaaa\<close> was sent, with a valid signature over its own hash and nonce: the
  check returns no error, the hash is logged as verified and the record is decrypted.
\<close>

theorem stale_nonce_counterexample:
  "Nonce staleRth \<noteq> rthNonce \<and>
   verifyRTH testLibrary (Some testKey) staleRth = Inr None \<and>
   main testLibrary (testWorld\<lparr>getRootTreeHash := \<lambda>nonce. Inr staleRth\<rparr>) =
     (None,
      [RpcGetRootTreeHash rthNonce, LogRTH, RpcGetPublicKey pkNonce, LogQuote,
       LogEncryptionTest, LogVerified (replicate 32 7),
       RpcDecryptRecord \<lparr>Ciphertext = bytesOf ''hello'', ProofOfPresence = ''popToken'',
                          ProofOfExtension = ''poeToken''\<rparr>,
       PrintDecrypted (bytesOf ''olleh'' @ replicate 27 0) 104])"
  by (simp add: eval_defs)

text \<open>
  Claim C2, amended. Commitment verification does not compare the nonce of the commitment
  with the nonce that was sent, and never yields \<open>StaleOrForgedNonce\<close>: the check returns
  no such error, \<^verbatim>\<open>main\<close> neither stops with it nor logs it. For every commitment, also
  one whose nonce differs from the nonce sent, the result is decided by the PKCS#1 v1.5
  check of the signature over \<open>sha256(rootHash ++ commitment.nonce)\<close> alone: no error when
  the signature is valid, \<open>SignatureInvalid\<close> otherwise.
\<close>

theorem verifyRTH_ignores_sent_nonce:
  "verifyRTH lib key rth \<noteq> Inr (Some StaleOrForgedNonce) \<and>
   set (verifyFailures (snd (main lib w))) \<subseteq> {SignatureInvalid} \<and>
   fst (main lib w) \<noteq> Some (Fatal StaleOrForgedNonce) \<and>
   (Nonce rth \<noteq> rthNonce \<longrightarrow>
      verifyRTH lib (Some k) rth =
        Inr (if verifyPKCS1v15 lib k (sha256Sum lib (Rth rth @ Nonce rth)) (Sig rth)
             then None else Some SignatureInvalid))"
proof -
  have 1: "verifyRTH lib key rth \<noteq> Inr (Some StaleOrForgedNonce)"
    using verifyRTH_cases [of lib key rth StaleOrForgedNonce] by auto
  have 2: "fst (main lib w) \<noteq> Some (Fatal StaleOrForgedNonce)"
    using main_abort_cases [of lib w "Fatal StaleOrForgedNonce"] by auto
  have 3: "verifyRTH lib (Some k) rth =
        Inr (if verifyPKCS1v15 lib k (sha256Sum lib (Rth rth @ Nonce rth)) (Sig rth)
             then None else Some SignatureInvalid)"
    by (simp add: verifyRTH_def)
  from 1 2 3 main_verifyFailures [of lib w] show ?thesis by blast
qed

theorem verifyRTH_ignores_sent_nonce_witness:
  "Nonce staleRth \<noteq> rthNonce \<and>
   verifyPKCS1v15 testLibrary testKey (sha256Sum testLibrary (Rth staleRth @ Nonce staleRth))
     (Sig staleRth) \<and>
   verifyRTH testLibrary (Some testKey) staleRth = Inr None \<and>
   verifyRTH testLibrary (Some testKey) (staleRth\<lparr>Sig := replicate 32 0\<rparr>) =
     Inr (Some SignatureInvalid)"
  using verifyRTH_ignores_sent_nonce [of testLibrary "Some testKey" staleRth testWorld testKey]
    verifyRTH_ignores_sent_nonce [of testLibrary "Some testKey"
      "staleRth\<lparr>Sig := replicate 32 0\<rparr>" testWorld testKey]
  by (simp add: testLibrary_def staleRth_def rthNonce_def bytesOf_def copy32_def verifyRTH_def
      replicate_32)

text \<open>
  Claim C1. If the verification of the root commitment fails (\<open>SignatureInvalid\<close>), the
  session does not proceed: no \<^verbatim>\<open>DecryptRecord\<close> request is issued after a failed
  verification.

  The code does not hold this. In the test world with a signature of 32 zero bytes the
  check of line 115 fails; line 117 logs the failure, line 119 then logs the hash as
  verified all the same, and the run goes on to read both tables and to send the
  \<^verbatim>\<open>DecryptRecord\<close> request of the proof line.
\<close>

theorem failed_verification_still_decrypts:
  "verifyRTH testLibrary (Some testKey) (testRth\<lparr>Sig := replicate 32 0\<rparr>) =
     Inr (Some SignatureInvalid) \<and>
   main testLibrary
     (testWorld\<lparr>getRootTreeHash := \<lambda>nonce. Inr (testRth\<lparr>Sig := replicate 32 0\<rparr>)\<rparr>) =
     (None,
      [RpcGetRootTreeHash rthNonce, LogRTH, RpcGetPublicKey pkNonce, LogQuote,
       LogEncryptionTest, LogVerifyFailed SignatureInvalid, LogVerified (replicate 32 7),
       RpcDecryptRecord \<lparr>Ciphertext = bytesOf ''hello'', ProofOfPresence = ''popToken'',
                          ProofOfExtension = ''poeToken''\<rparr>,
       PrintDecrypted (bytesOf ''olleh'' @ replicate 27 0) 104])"
  by (simp add: eval_defs replicate_32)

subsection \<open>The ciphertext index\<close>

text \<open>
  Claim C6. Loading the ciphertext index is all or nothing: a base64 decoding failure on
  any input line is fatal for the whole load (\<open>FixtureCorrupt\<close>), and no partial index is
  handed back.

  In the model: when the second field of some line fails to decode, the loop returns no
  index, whatever it had stored before. It stops with \<open>FixtureCorrupt\<close> when every line
  has a second field (a line without one panics at \<^verbatim>\<open>line[1]\<close>, which ends the load as
  well). The session then stops too, without a single \<^verbatim>\<open>DecryptRecord\<close> request.
\<close>

theorem loadRecords_all_or_nothing:
  assumes "\<exists>s\<in>set lines. 2 \<le> length (strings_Split s CHR '','') \<and>
             snd (base64DecodeString lib (strings_Split s CHR '','' ! 1)) \<noteq> None"
  shows "(\<exists>a. loadRecords lib lines ctDB = Inl a) \<and>
         ((\<forall>s\<in>set lines. 2 \<le> length (strings_Split s CHR '','')) \<longrightarrow>
            loadRecords lib lines ctDB = Inl (Fatal FixtureCorrupt)) \<and>
         (recordsFile w = Some f \<and> fileLines f = lines \<longrightarrow>
            (\<exists>a. readRecords lib w = Inl a) \<and>
            fst (session lib w rth key tr) \<noteq> None \<and>
            requestsOf (snd (session lib w rth key tr)) = requestsOf tr)"
proof -
  have 1: "\<exists>a. loadRecords lib lines ctDB0 = Inl a" for ctDB0
    using assms by (rule loadRecords_fails)
  have 2: "(\<forall>s\<in>set lines. 2 \<le> length (strings_Split s CHR '','')) \<longrightarrow>
            loadRecords lib lines ctDB = Inl (Fatal FixtureCorrupt)"
    using assms loadRecords_corrupt [of lines lib ctDB] by blast
  have 3: "recordsFile w = Some f \<and> fileLines f = lines \<longrightarrow>
            (\<exists>a. readRecords lib w = Inl a) \<and>
            fst (session lib w rth key tr) \<noteq> None \<and>
            requestsOf (snd (session lib w rth key tr)) = requestsOf tr"
  proof
    assume f: "recordsFile w = Some f \<and> fileLines f = lines"
    from 1 obtain a where "loadRecords lib lines Map.empty = Inl a" by blast
    with f have r: "readRecords lib w = Inl a" by (simp add: readRecords_def)
    with session_load_fails [OF r, of rth key tr]
    show "(\<exists>a. readRecords lib w = Inl a) \<and>
            fst (session lib w rth key tr) \<noteq> None \<and>
            requestsOf (snd (session lib w rth key tr)) = requestsOf tr"
      by blast
  qed
  from 1 2 3 show ?thesis by blast
qed

theorem loadRecords_all_or_nothing_witness:
  "snd (base64DecodeString testLibrary (strings_Split ''C3D4,!!!!'' CHR '','' ! 1)) \<noteq> None \<and>
   loadRecords testLibrary [''A1B2,aGVsbG8='', ''C3D4,!!!!'', ''E5F6,aGVsbG8=''] Map.empty =
     Inl (Fatal FixtureCorrupt) \<and>
   main testLibrary
     (testWorld\<lparr>recordsFile :=
        Some \<lparr>fileLines = [''A1B2,aGVsbG8='', ''C3D4,!!!!'', ''E5F6,aGVsbG8=''],
              scanErr = False\<rparr>\<rparr>) =
     (Some (Fatal FixtureCorrupt),
      [RpcGetRootTreeHash rthNonce, LogRTH, RpcGetPublicKey pkNonce, LogQuote,
       LogEncryptionTest, LogVerified (replicate 32 7)])"
proof -
  have h: "\<exists>s\<in>set [''A1B2,aGVsbG8='', ''C3D4,!!!!'', ''E5F6,aGVsbG8=''].
             2 \<le> length (strings_Split s CHR '','') \<and>
             snd (base64DecodeString testLibrary (strings_Split s CHR '','' ! 1)) \<noteq> None"
    by (simp add: testLibrary_def b64Group_def b64Value_def)
  from loadRecords_all_or_nothing [OF h, where ctDB = Map.empty]
  show ?thesis by (simp add: eval_defs)
qed

text \<open>
  Claim C8. Commitment verification computes exactly
  \<open>digest = sha256(commitment.rootHash ++ commitment.nonce)\<close> and checks the signature of
  the commitment over that digest with RSA PKCS#1 v1.5 under the verification key of the
  session; the ciphertext index is keyed by the digest it computes itself as
  \<open>sha256(ciphertext)\<close>, never by a label of the input.

  In the model: the error of line 115 is that of the PKCS#1 v1.5 check of \<open>Sig\<close> over
  the SHA-256 of \<open>Rth\<close> followed by \<open>Nonce\<close>; in a run of \<^verbatim>\<open>main\<close> that reaches the check,
  the key is the verification key that was imported and the failure is logged exactly
  when that check fails. The index that the load returns is the starting map updated,
  line after line, at the SHA-256 of the decoded second field with the decoded second
  field: no other field of a line enters it, and in the index \<^verbatim>\<open>main\<close> uses every key is
  the SHA-256 of its value.
\<close>

theorem digests_computed_locally:
  "verifyRTH lib (Some k) rth =
     Inr (if verifyPKCS1v15 lib k (sha256Sum lib (Rth rth @ Nonce rth)) (Sig rth)
          then None else Some SignatureInvalid) \<and>
   (\<not> dialFails w \<and> getRootTreeHash w rthNonce = Inr rth \<and> 31 \<le> SigCap rth \<and>
    getPublicKey w pkNonce = Inr pk \<and> importKeys lib pk = Inr (Some encKey, Some k) \<and>
    encryptOAEP lib encKey samplePlaintext label = Some c1 \<and>
    encryptPKCS1v15 lib encKey samplePKCS1v15PT = Some c2 \<longrightarrow>
      verifyFailures (snd (main lib w)) =
        (if verifyPKCS1v15 lib k (sha256Sum lib (Rth rth @ Nonce rth)) (Sig rth)
         then [] else [SignatureInvalid])) \<and>
   (loadRecords lib lines ctDB0 = Inr ctDB \<longrightarrow>
      ctDB = foldl (\<lambda>m ct. m(sha256Sum lib ct \<mapsto> ct)) ctDB0
               (map (\<lambda>s. fst (base64DecodeString lib (strings_Split s CHR '','' ! 1))) lines)) \<and>
   (readRecords lib w = Inr ctDB \<longrightarrow> (\<forall>d ct. ctDB d = Some ct \<longrightarrow> d = sha256Sum lib ct))"
proof -
  have 1: "verifyRTH lib (Some k) rth =
     Inr (if verifyPKCS1v15 lib k (sha256Sum lib (Rth rth @ Nonce rth)) (Sig rth)
          then None else Some SignatureInvalid)"
    by (simp add: verifyRTH_def)
  have 2: "\<not> dialFails w \<and> getRootTreeHash w rthNonce = Inr rth \<and> 31 \<le> SigCap rth \<and>
    getPublicKey w pkNonce = Inr pk \<and> importKeys lib pk = Inr (Some encKey, Some k) \<and>
    encryptOAEP lib encKey samplePlaintext label = Some c1 \<and>
    encryptPKCS1v15 lib encKey samplePKCS1v15PT = Some c2 \<longrightarrow>
      verifyFailures (snd (main lib w)) =
        (if verifyPKCS1v15 lib k (sha256Sum lib (Rth rth @ Nonce rth)) (Sig rth)
         then [] else [SignatureInvalid])"
  proof
    assume a: "\<not> dialFails w \<and> getRootTreeHash w rthNonce = Inr rth \<and> 31 \<le> SigCap rth \<and>
      getPublicKey w pkNonce = Inr pk \<and> importKeys lib pk = Inr (Some encKey, Some k) \<and>
      encryptOAEP lib encKey samplePlaintext label = Some c1 \<and>
      encryptPKCS1v15 lib encKey samplePKCS1v15PT = Some c2"
    then have "main lib w =
      session lib w rth (Some k)
        [RpcGetRootTreeHash rthNonce, LogRTH, RpcGetPublicKey pkNonce, LogQuote,
         LogEncryptionTest]"
      using main_ready [of w rth pk lib encKey "Some k" c1 c2] by blast
    then show "verifyFailures (snd (main lib w)) =
        (if verifyPKCS1v15 lib k (sha256Sum lib (Rth rth @ Nonce rth)) (Sig rth)
         then [] else [SignatureInvalid])"
      by (simp add: session_verifyFailures 1)
  qed
  have 3: "loadRecords lib lines ctDB0 = Inr ctDB \<longrightarrow>
      ctDB = foldl (\<lambda>m ct. m(sha256Sum lib ct \<mapsto> ct)) ctDB0
               (map (\<lambda>s. fst (base64DecodeString lib (strings_Split s CHR '','' ! 1))) lines)"
    using loadRecords_foldl [of lib lines ctDB0 ctDB] by blast
  have 4: "readRecords lib w = Inr ctDB \<longrightarrow> (\<forall>d ct. ctDB d = Some ct \<longrightarrow> d = sha256Sum lib ct)"
    using readRecords_keys [of lib w ctDB] by blast
  from 1 2 3 4 show ?thesis by blast
qed

theorem digests_computed_locally_witness:
  "verifyRTH testLibrary (Some testKey) testRth = Inr None \<and>
   importKeys testLibrary testKeys = Inr (Some testKey, Some testKey) \<and>
   verifyFailures (snd (main testLibrary testWorld)) = [] \<and>
   loadRecords testLibrary [''A1B2,aGVsbG8=''] Map.empty =
     Inr [bytesOf ''olleh'' @ replicate 27 0 \<mapsto> bytesOf ''hello''] \<and>
   readRecords testLibrary testWorld =
     Inr [bytesOf ''olleh'' @ replicate 27 0 \<mapsto> bytesOf ''hello'']"
  using digests_computed_locally [of testLibrary testKey testRth testWorld testKeys testKey
      "rev samplePlaintext" "rev samplePKCS1v15PT" "[''A1B2,aGVsbG8='']" Map.empty
      "[bytesOf ''olleh'' @ replicate 27 0 \<mapsto> bytesOf ''hello'']"]
  by (simp add: eval_defs)

subsection \<open>The proof table\<close>

text \<open>
  Claim C9. For every line of the proof table whose hex digest field decodes to fewer
  than 32 bytes (also when the decoding fails and its error is discarded), the key looked
  up in the ciphertext index is the decoded prefix, padded on the right with zero bytes
  to exactly 32 bytes, and processing continues with that key instead of reporting a
  malformed record.

  In the model, for a line of at least three fields and whatever error the decoder
  returns with its bytes: the key is the decoded bytes followed by zeros, 32 bytes long;
  the request carries what the index holds under that key; the request is sent and its
  reply reported under that key; the line never ends in \<open>ProofRecordMalformed\<close>; and the
  loop goes on with the lines after it (unless line 180 panics on an empty plaintext).
\<close>

theorem short_digest_zero_padded:
  assumes "3 \<le> length (strings_Split s CHR '' '')"
    and "hexDecodeString lib (strings_Split s CHR '' '' ! 0) = (decoded, err)"
    and "length decoded < 32"
  shows "lookupKey lib (strings_Split s CHR '' '' ! 0) =
           decoded @ replicate (32 - length decoded) 0 \<and>
         length (lookupKey lib (strings_Split s CHR '' '' ! 0)) = 32 \<and>
         requestOf lib ctDB (strings_Split s CHR '' '') =
           \<lparr>Ciphertext = mapIndex ctDB (decoded @ replicate (32 - length decoded) 0),
            ProofOfPresence = strings_Split s CHR '' '' ! 1,
            ProofOfExtension = strings_Split s CHR '' '' ! 2\<rparr> \<and>
         events (snd (proofLine lib w ctDB s st)) =
           events st @ RpcDecryptRecord (requestOf lib ctDB (strings_Split s CHR '' ''))
             # outcomeOf (decoded @ replicate (32 - length decoded) 0)
                 (decryptRecord w (events st) (requestOf lib ctDB (strings_Split s CHR '' ''))) \<and>
         fst (proofLine lib w ctDB s st) \<noteq> Some (Fatal ProofRecordMalformed) \<and>
         (decryptRecord w (events st) (requestOf lib ctDB (strings_Split s CHR '' '')) \<noteq> Inr [] \<longrightarrow>
            proofLoop lib w ctDB (s # rest) st =
            proofLoop lib w ctDB rest (snd (proofLine lib w ctDB s st)))"
proof -
  let ?line = "strings_Split s CHR '' ''"
  have key: "lookupKey lib (?line ! 0) = decoded @ replicate (32 - length decoded) 0"
    using assms(2,3) by (simp add: lookupKey_def copy32_short)
  have len: "length (lookupKey lib (?line ! 0)) = 32"
    by (simp add: lookupKey_def length_copy32)
  have req: "requestOf lib ctDB ?line =
           \<lparr>Ciphertext = mapIndex ctDB (decoded @ replicate (32 - length decoded) 0),
            ProofOfPresence = ?line ! 1, ProofOfExtension = ?line ! 2\<rparr>"
    by (simp add: requestOf_def key)
  have ev: "events (snd (proofLine lib w ctDB s st)) =
           events st @ RpcDecryptRecord (requestOf lib ctDB ?line)
             # outcomeOf (decoded @ replicate (32 - length decoded) 0)
                 (decryptRecord w (events st) (requestOf lib ctDB ?line))"
    using proofLine_events [OF assms(1), of lib w ctDB st] by (simp only: key)
  have nm: "fst (proofLine lib w ctDB s st) \<noteq> Some (Fatal ProofRecordMalformed)"
    using proofLine_abort_cases [of lib w ctDB s st "Fatal ProofRecordMalformed"] by auto
  have go: "decryptRecord w (events st) (requestOf lib ctDB ?line) \<noteq> Inr [] \<longrightarrow>
            proofLoop lib w ctDB (s # rest) st =
            proofLoop lib w ctDB rest (snd (proofLine lib w ctDB s st))"
    using proofLine_abort [OF assms(1), of lib w ctDB st] proofLoop_Cons [of lib w ctDB s st rest]
    by (simp split: if_splits)
  from key len req ev nm go show ?thesis by blast
qed

theorem short_digest_zero_padded_witness:
  "3 \<le> length (strings_Split ''abc popToken poeToken'' CHR '' '') \<and>
   hexDecodeString testLibrary (strings_Split ''abc popToken poeToken'' CHR '' '' ! 0) =
     ([171], Some ''encoding/hex: odd length hex string'') \<and>
   lookupKey testLibrary ''abc'' = 171 # replicate 31 0 \<and>
   events (snd (proofLine testLibrary testWorld [171 # replicate 31 0 \<mapsto> [9]]
                  ''abc popToken poeToken''
                  \<lparr>presenceDB = Map.empty, extensionDB = Map.empty, events = []\<rparr>)) =
     [RpcDecryptRecord \<lparr>Ciphertext = [9], ProofOfPresence = ''popToken'',
                        ProofOfExtension = ''poeToken''\<rparr>,
      PrintDecrypted (171 # replicate 31 0) 9]"
proof -
  have h1: "3 \<le> length (strings_Split ''abc popToken poeToken'' CHR '' '')"
    by simp
  have h2: "hexDecodeString testLibrary (strings_Split ''abc popToken poeToken'' CHR '' '' ! 0) =
     ([171], Some ''encoding/hex: odd length hex string'')"
    by (simp add: testLibrary_def fromHexChar_def)
  have h3: "length [171 :: byte] < 32"
    by simp
  from short_digest_zero_padded [OF h1 h2 h3, where w = testWorld
      and ctDB = "[171 # replicate 31 0 \<mapsto> [9]]"
      and st = "\<lparr>presenceDB = Map.empty, extensionDB = Map.empty, events = []\<rparr>"
      and rest = "[]"] h1 h2
  show ?thesis
    by (simp add: testWorld_def testDevice_def requestOf_def mapIndex_def)
qed

text \<open>
  Claim C3, as stated: for a proof line whose digest has no entry in the ciphertext
  index, reconciliation is a no-op, with no decrypt request and no outcome for that
  digest. The code never asks whether the key is in the map. In the test world the index
  holds one ciphertext; a proof line with the digest \<^verbatim>\<open>00\<close> matches nothing in it, and
  the run still sends a request for that line, with an empty ciphertext, and reports the
  rejection the device answers, before it goes on to the line that does match.
\<close>

theorem unmatched_digest_counterexample:
  "readRecords testLibrary testWorld =
     Inr [bytesOf ''olleh'' @ replicate 27 0 \<mapsto> bytesOf ''hello''] \<and>
   [bytesOf ''olleh'' @ replicate 27 0 \<mapsto> bytesOf ''hello''] (lookupKey testLibrary ''00'') = None \<and>
   main testLibrary
     (testWorld\<lparr>proofsFile :=
        Some \<lparr>fileLines = [''00 popA poeA'', ''6f6c6c6568 popToken poeToken''],
              scanErr = False\<rparr>\<rparr>) =
     (None,
      [RpcGetRootTreeHash rthNonce, LogRTH, RpcGetPublicKey pkNonce, LogQuote,
       LogEncryptionTest, LogVerified (replicate 32 7),
       RpcDecryptRecord \<lparr>Ciphertext = [], ProofOfPresence = ''popA'', ProofOfExtension = ''poeA''\<rparr>,
       LogDecryptFailed OracleRejected,
       RpcDecryptRecord \<lparr>Ciphertext = bytesOf ''hello'', ProofOfPresence = ''popToken'',
                          ProofOfExtension = ''poeToken''\<rparr>,
       PrintDecrypted (bytesOf ''olleh'' @ replicate 27 0) 104])"
  by (simp add: eval_defs replicate_32)

text \<open>
  Claim C3, amended. For every proof line of at least three fields whose digest has no
  matching entry in the ciphertext index, a decrypt request is still constructed and
  sent, in the loop as in the single turn: it carries the empty ciphertext and the two
  tokens of the line. And when the device answers that request with an error or with a
  plaintext that is not empty, the answer is reported as the outcome of the line.
\<close>

theorem unmatched_digest_still_sent:
  assumes "3 \<le> length (strings_Split s CHR '' '')"
    and "ctDB (lookupKey lib (strings_Split s CHR '' '' ! 0)) = None"
  shows "requestOf lib ctDB (strings_Split s CHR '' '') =
           \<lparr>Ciphertext = [], ProofOfPresence = strings_Split s CHR '' '' ! 1,
            ProofOfExtension = strings_Split s CHR '' '' ! 2\<rparr> \<and>
         requestsOf (events (snd (proofLine lib w ctDB s st))) =
           requestsOf (events st) @
           [\<lparr>Ciphertext = [], ProofOfPresence = strings_Split s CHR '' '' ! 1,
             ProofOfExtension = strings_Split s CHR '' '' ! 2\<rparr>] \<and>
         (\<exists>ev. events (snd (proofLoop lib w ctDB (s # rest) st)) =
            events st @
            RpcDecryptRecord \<lparr>Ciphertext = [], ProofOfPresence = strings_Split s CHR '' '' ! 1,
                              ProofOfExtension = strings_Split s CHR '' '' ! 2\<rparr> # ev) \<and>
         (\<forall>err. decryptRecord w (events st)
                  \<lparr>Ciphertext = [], ProofOfPresence = strings_Split s CHR '' '' ! 1,
                   ProofOfExtension = strings_Split s CHR '' '' ! 2\<rparr> = Inl err \<longrightarrow>
            fst (proofLine lib w ctDB s st) = None \<and>
            events (snd (proofLine lib w ctDB s st)) =
              events st @
              [RpcDecryptRecord \<lparr>Ciphertext = [], ProofOfPresence = strings_Split s CHR '' '' ! 1,
                                 ProofOfExtension = strings_Split s CHR '' '' ! 2\<rparr>,
               LogDecryptFailed err]) \<and>
         (\<forall>b plaintext. decryptRecord w (events st)
                  \<lparr>Ciphertext = [], ProofOfPresence = strings_Split s CHR '' '' ! 1,
                   ProofOfExtension = strings_Split s CHR '' '' ! 2\<rparr> = Inr (b # plaintext) \<longrightarrow>
            fst (proofLine lib w ctDB s st) = None \<and>
            events (snd (proofLine lib w ctDB s st)) =
              events st @
              [RpcDecryptRecord \<lparr>Ciphertext = [], ProofOfPresence = strings_Split s CHR '' '' ! 1,
                                 ProofOfExtension = strings_Split s CHR '' '' ! 2\<rparr>,
               PrintDecrypted (lookupKey lib (strings_Split s CHR '' '' ! 0)) b])"
proof -
  let ?line = "strings_Split s CHR '' ''"
  let ?req = "\<lparr>Ciphertext = [], ProofOfPresence = ?line ! 1, ProofOfExtension = ?line ! 2\<rparr>"
  have req: "requestOf lib ctDB ?line = ?req"
    using assms(2) by (simp add: requestOf_def mapIndex_def)
  have ev: "events (snd (proofLine lib w ctDB s st)) =
      events st @ RpcDecryptRecord ?req
        # outcomeOf (lookupKey lib (?line ! 0)) (decryptRecord w (events st) ?req)"
    using proofLine_events [OF assms(1), of lib w ctDB st] by (simp only: req)
  have ab: "fst (proofLine lib w ctDB s st) =
      (if decryptRecord w (events st) ?req = Inr [] then Some (Panic IndexOutOfRange) else None)"
    using proofLine_abort [OF assms(1), of lib w ctDB st] by (simp only: req)
  have 2: "requestsOf (events (snd (proofLine lib w ctDB s st))) = requestsOf (events st) @ [?req]"
    by (simp add: ev requestsOf_append requestsOf_outcomeOf)
  have 3: "\<exists>ev. events (snd (proofLoop lib w ctDB (s # rest) st)) =
      events st @ RpcDecryptRecord ?req # ev"
    using proofLoop_first_request [OF assms(1), of lib w ctDB rest st] by (simp only: req)
  have 4: "\<forall>err. decryptRecord w (events st) ?req = Inl err \<longrightarrow>
      fst (proofLine lib w ctDB s st) = None \<and>
      events (snd (proofLine lib w ctDB s st)) =
        events st @ [RpcDecryptRecord ?req, LogDecryptFailed err]"
    by (simp add: ev ab)
  have 5: "\<forall>b plaintext. decryptRecord w (events st) ?req = Inr (b # plaintext) \<longrightarrow>
      fst (proofLine lib w ctDB s st) = None \<and>
      events (snd (proofLine lib w ctDB s st)) =
        events st @ [RpcDecryptRecord ?req, PrintDecrypted (lookupKey lib (?line ! 0)) b]"
    by (simp add: ev ab)
  from req 2 3 4 5 show ?thesis by blast
qed

theorem unmatched_digest_still_sent_witness:
  "3 \<le> length (strings_Split ''00 popA poeA'' CHR '' '') \<and>
   [bytesOf ''olleh'' @ replicate 27 0 \<mapsto> bytesOf ''hello'']
     (lookupKey testLibrary (strings_Split ''00 popA poeA'' CHR '' '' ! 0)) = None \<and>
   proofLine testLibrary testWorld [bytesOf ''olleh'' @ replicate 27 0 \<mapsto> bytesOf ''hello'']
     ''00 popA poeA'' \<lparr>presenceDB = Map.empty, extensionDB = Map.empty, events = []\<rparr> =
     (None,
      \<lparr>presenceDB = [''00'' \<mapsto> ''popA''], extensionDB = [''00'' \<mapsto> ''poeA''],
       events =
         [RpcDecryptRecord \<lparr>Ciphertext = [], ProofOfPresence = ''popA'',
                            ProofOfExtension = ''poeA''\<rparr>,
          LogDecryptFailed OracleRejected]\<rparr>) \<and>
   events (snd (proofLine testLibrary (testWorld\<lparr>decryptRecord := \<lambda>tr req. Inr [7, 8]\<rparr>)
       [bytesOf ''olleh'' @ replicate 27 0 \<mapsto> bytesOf ''hello'']
       ''00 popA poeA'' \<lparr>presenceDB = Map.empty, extensionDB = Map.empty, events = []\<rparr>)) =
     [RpcDecryptRecord \<lparr>Ciphertext = [], ProofOfPresence = ''popA'', ProofOfExtension = ''poeA''\<rparr>,
      PrintDecrypted (replicate 32 0) 7]"
proof -
  have h1: "3 \<le> length (strings_Split ''00 popA poeA'' CHR '' '')"
    by simp
  have h2: "[bytesOf ''olleh'' @ replicate 27 0 \<mapsto> bytesOf ''hello'']
     (lookupKey testLibrary (strings_Split ''00 popA poeA'' CHR '' '' ! 0)) = None"
    by (simp add: eval_defs replicate_32)
  note t = unmatched_digest_still_sent [where s = "''00 popA poeA''" and lib = testLibrary
      and ctDB = "[bytesOf ''olleh'' @ replicate 27 0 \<mapsto> bytesOf ''hello'']", OF h1 h2]
  from t [where w = testWorld
      and st = "\<lparr>presenceDB = Map.empty, extensionDB = Map.empty, events = []\<rparr>"
      and rest = "[]"]
    t [where w = "testWorld\<lparr>decryptRecord := \<lambda>tr req. Inr [7, 8]\<rparr>"
      and st = "\<lparr>presenceDB = Map.empty, extensionDB = Map.empty, events = []\<rparr>"
      and rest = "[]"] h1 h2
  show ?thesis by (simp add: eval_defs replicate_32)
qed




subsection \<open>The orchestrator\<close>

text \<open>
  Claim C7. Per-item isolation: for every batch, a failure that \<^verbatim>\<open>send\<close> returns for one
  digest (\<open>OracleRejected\<close>, \<open>TransportError\<close>) is recorded as the outcome of that item and
  does not abort the processing of the remaining digests; outcomes are still produced for
  every other digest of the batch.

  In the model: whenever the call for a line (of three fields) fails, that turn does not
  abort, its events are the request and the log of the error, the loop goes on with the
  remaining lines from the state that line left, and the events of the loop start with
  that request and that log. And for a batch whose lines all have three fields and in
  which no reply that the loop receives is an empty plaintext (line 180 would panic on
  one), however many of the calls fail: the loop ends without an abort, it has sent
  exactly one request per line, in the order of the lines, and reported exactly one
  outcome per line, and the turn of each line adds its request and the outcome of its
  reply to the events of the lines before it. The device of the witness can answer with
  an empty plaintext, only not to this batch; the first and the third call fail, the
  second succeeds.
\<close>

theorem send_failure_isolated:
  "(3 \<le> length (strings_Split s CHR '' '') \<and>
    decryptRecord w (events st) (requestOf lib ctDB (strings_Split s CHR '' '')) = Inl err \<longrightarrow>
      fst (proofLine lib w ctDB s st) = None \<and>
      events (snd (proofLine lib w ctDB s st)) =
        events st @ [RpcDecryptRecord (requestOf lib ctDB (strings_Split s CHR '' '')),
                     LogDecryptFailed err] \<and>
      proofLoop lib w ctDB (s # rest) st =
        proofLoop lib w ctDB rest (snd (proofLine lib w ctDB s st)) \<and>
      (\<exists>ev. events (snd (proofLoop lib w ctDB (s # rest) st)) =
         events st @ RpcDecryptRecord (requestOf lib ctDB (strings_Split s CHR '' ''))
           # LogDecryptFailed err # ev)) \<and>
   ((\<forall>s\<in>set lines. 3 \<le> length (strings_Split s CHR '' '')) \<and>
    (\<forall>i<length lines.
       decryptRecord w (events (snd (proofLoop lib w ctDB (take i lines) st)))
         (requestOf lib ctDB (strings_Split (lines ! i) CHR '' '')) \<noteq> Inr []) \<longrightarrow>
      fst (proofLoop lib w ctDB lines st) = None \<and>
      requestsOf (events (snd (proofLoop lib w ctDB lines st))) =
        requestsOf (events st) @
        map (\<lambda>s. requestOf lib ctDB (strings_Split s CHR '' '')) lines \<and>
      length (outcomesOf (events (snd (proofLoop lib w ctDB lines st)))) =
        length (outcomesOf (events st)) + length lines \<and>
      (\<forall>i<length lines.
         events (snd (proofLoop lib w ctDB (take (Suc i) lines) st)) =
           events (snd (proofLoop lib w ctDB (take i lines) st)) @
           RpcDecryptRecord (requestOf lib ctDB (strings_Split (lines ! i) CHR '' ''))
           # outcomeOf (lookupKey lib (strings_Split (lines ! i) CHR '' '' ! 0))
               (decryptRecord w (events (snd (proofLoop lib w ctDB (take i lines) st)))
                  (requestOf lib ctDB (strings_Split (lines ! i) CHR '' '')))))"
proof -
  have step: "fst (proofLine lib w ctDB s st) = None \<and>
      events (snd (proofLine lib w ctDB s st)) =
        events st @ [RpcDecryptRecord (requestOf lib ctDB (strings_Split s CHR '' '')),
                     LogDecryptFailed err] \<and>
      proofLoop lib w ctDB (s # rest) st =
        proofLoop lib w ctDB rest (snd (proofLine lib w ctDB s st)) \<and>
      (\<exists>ev. events (snd (proofLoop lib w ctDB (s # rest) st)) =
         events st @ RpcDecryptRecord (requestOf lib ctDB (strings_Split s CHR '' ''))
           # LogDecryptFailed err # ev)"
    if len: "3 \<le> length (strings_Split s CHR '' '')"
      and fail: "decryptRecord w (events st) (requestOf lib ctDB (strings_Split s CHR '' '')) = Inl err"
  proof -
    have ev: "events (snd (proofLine lib w ctDB s st)) =
              events st @ [RpcDecryptRecord (requestOf lib ctDB (strings_Split s CHR '' '')),
                           LogDecryptFailed err]"
      using proofLine_events [OF len, of lib w ctDB st] by (simp add: fail)
    have none: "fst (proofLine lib w ctDB s st) = None"
      using proofLine_abort [OF len, of lib w ctDB st] by (simp add: fail)
    then have loop: "proofLoop lib w ctDB (s # rest) st =
              proofLoop lib w ctDB rest (snd (proofLine lib w ctDB s st))"
      by (rule proofLoop_Cons)
    obtain ev2 where "events (snd (proofLoop lib w ctDB rest (snd (proofLine lib w ctDB s st)))) =
        events (snd (proofLine lib w ctDB s st)) @ ev2"
      using proofLoop_extends by blast
    then have "events (snd (proofLoop lib w ctDB (s # rest) st)) =
         events st @ RpcDecryptRecord (requestOf lib ctDB (strings_Split s CHR '' ''))
           # LogDecryptFailed err # ev2"
      by (simp only: loop ev) simp
    with ev none loop show ?thesis by blast
  qed
  have batch: "fst (proofLoop lib w ctDB lines st) = None \<and>
      requestsOf (events (snd (proofLoop lib w ctDB lines st))) =
        requestsOf (events st) @
        map (\<lambda>s. requestOf lib ctDB (strings_Split s CHR '' '')) lines \<and>
      length (outcomesOf (events (snd (proofLoop lib w ctDB lines st)))) =
        length (outcomesOf (events st)) + length lines \<and>
      (\<forall>i<length lines.
         events (snd (proofLoop lib w ctDB (take (Suc i) lines) st)) =
           events (snd (proofLoop lib w ctDB (take i lines) st)) @
           RpcDecryptRecord (requestOf lib ctDB (strings_Split (lines ! i) CHR '' ''))
           # outcomeOf (lookupKey lib (strings_Split (lines ! i) CHR '' '' ! 0))
               (decryptRecord w (events (snd (proofLoop lib w ctDB (take i lines) st)))
                  (requestOf lib ctDB (strings_Split (lines ! i) CHR '' ''))))"
    if a: "\<forall>s\<in>set lines. 3 \<le> length (strings_Split s CHR '' '')"
      and b: "\<forall>i<length lines.
       decryptRecord w (events (snd (proofLoop lib w ctDB (take i lines) st)))
         (requestOf lib ctDB (strings_Split (lines ! i) CHR '' '')) \<noteq> Inr []"
    using proofLoop_batch [OF a b] proofLoop_batch_step [OF a b] by blast
  from step batch show ?thesis by blast
qed

theorem send_failure_isolated_witness:
  "stripDevice [] \<lparr>Ciphertext = [5], ProofOfPresence = '''', ProofOfExtension = ''''\<rparr> = Inr [] \<and>
   3 \<le> length (strings_Split ''00 popA poeA'' CHR '' '') \<and>
   3 \<le> length (strings_Split ''6f6c6c6568 popToken poeToken'' CHR '' '') \<and>
   3 \<le> length (strings_Split ''01 popB poeB'' CHR '' '') \<and>
   proofLoop testLibrary (testWorld\<lparr>decryptRecord := stripDevice\<rparr>)
      [bytesOf ''olleh'' @ replicate 27 0 \<mapsto> bytesOf ''hello'']
      [''00 popA poeA'', ''6f6c6c6568 popToken poeToken'', ''01 popB poeB'']
      \<lparr>presenceDB = Map.empty, extensionDB = Map.empty, events = []\<rparr> =
     (None,
      \<lparr>presenceDB = [''00'' \<mapsto> ''popA'', ''6f6c6c6568'' \<mapsto> ''popToken'', ''01'' \<mapsto> ''popB''],
       extensionDB = [''00'' \<mapsto> ''poeA'', ''6f6c6c6568'' \<mapsto> ''poeToken'', ''01'' \<mapsto> ''poeB''],
       events =
         [RpcDecryptRecord \<lparr>Ciphertext = [], ProofOfPresence = ''popA'',
                            ProofOfExtension = ''poeA''\<rparr>,
          LogDecryptFailed OracleRejected,
          RpcDecryptRecord \<lparr>Ciphertext = bytesOf ''hello'', ProofOfPresence = ''popToken'',
                            ProofOfExtension = ''poeToken''\<rparr>,
          PrintDecrypted (bytesOf ''olleh'' @ replicate 27 0) 101,
          RpcDecryptRecord \<lparr>Ciphertext = [], ProofOfPresence = ''popB'',
                            ProofOfExtension = ''poeB''\<rparr>,
          LogDecryptFailed OracleRejected]\<rparr>)"
proof -
  let ?w = "testWorld\<lparr>decryptRecord := stripDevice\<rparr>"
  let ?ctDB = "[bytesOf ''olleh'' @ replicate 27 0 \<mapsto> bytesOf ''hello'']"
  let ?lines = "[''00 popA poeA'', ''6f6c6c6568 popToken poeToken'', ''01 popB poeB'']"
  let ?st = "\<lparr>presenceDB = Map.empty, extensionDB = Map.empty, events = []\<rparr>"
  have h0: "stripDevice [] \<lparr>Ciphertext = [5], ProofOfPresence = '''', ProofOfExtension = ''''\<rparr> = Inr []"
    by (simp add: stripDevice_def)
  have h1: "\<forall>s\<in>set ?lines. 3 \<le> length (strings_Split s CHR '' '')"
    by simp
  have h2: "\<forall>i<length ?lines.
       decryptRecord ?w (events (snd (proofLoop testLibrary ?w ?ctDB (take i ?lines) ?st)))
         (requestOf testLibrary ?ctDB (strings_Split (?lines ! i) CHR '' '')) \<noteq> Inr []"
    by (simp add: All_less_Suc eval_defs stripDevice_def replicate_32)
  have h3: "decryptRecord ?w (events ?st)
      (requestOf testLibrary ?ctDB (strings_Split ''00 popA poeA'' CHR '' '')) = Inl OracleRejected"
    by (simp add: eval_defs stripDevice_def replicate_32)
  from send_failure_isolated [where s = "''00 popA poeA''" and w = ?w and lib = testLibrary
      and ctDB = ?ctDB and st = ?st and err = OracleRejected
      and rest = "[''6f6c6c6568 popToken poeToken'', ''01 popB poeB'']"
      and lines = ?lines] h0 h1 h2 h3
  show ?thesis by (simp add: eval_defs stripDevice_def replicate_32)
qed

end
